theory Spec2Isabelle
  imports Complex_Main "HOL-Library.Sublist" "HOL-Library.Multiset" "HOL-Library.Log_Nat"
begin

section \<open>Data model (src/reporting/metrics/test-metrics.ts)\<close>

text \<open>
  JavaScript numbers are rationals: counters and retry counts are \<open>nat\<close>, durations,
  averages and percentages \<open>rat\<close>, a \<open>Date\<close> the \<open>int\<close> number of milliseconds of its
  \<open>getTime()\<close>. The rounding of IEEE doubles is written out in \<open>getPassRate\<close>, with
  \<open>toDouble\<close>; the other quotients are taken exactly. Strings are lists of 8-bit
  characters; \<open>toLowerCase\<close> is the ASCII one.
\<close>

datatype Status = Passed | Failed | Skipped | Flaky

datatype AttachmentType = Screenshot | Video | Trace | Log

record Location =
  loc_file :: string
  loc_line :: nat
  loc_column :: nat

record TestError =
  message :: string
  stack :: "string option"
  etype :: string
  location :: "Location option"

record Attachment =
  a_name :: string
  a_path :: string
  a_type :: AttachmentType
  a_size :: "nat option"

record TestResult =
  name :: string
  fullName :: string
  status :: Status
  duration :: rat
  startTime :: int
  endTime :: "int option"
  error :: "TestError option"
  retries :: nat
  attachments :: "Attachment list"
  tags :: "string list"

record FailureAnalysis =
  errorType :: string
  errorMessage :: string
  count :: nat
  tests :: "string list"
  firstOccurrence :: int
  lastOccurrence :: int

record TestMetrics =
  total :: nat
  passed :: nat
  failed :: nat
  skipped :: nat
  flaky :: nat
  m_startTime :: int
  m_endTime :: "int option"
  m_duration :: int
  averageTestDuration :: rat
  slowestTest :: "TestResult option"
  fastestTest :: "TestResult option"
  failureRate :: rat
  topFailures :: "FailureAnalysis list"
  browser :: string
  environment :: string

section \<open>Strings\<close>

text \<open>
  \<open>toLowerCase\<close> on one character: the code points 65 to 90 (\<open>A\<close> to \<open>Z\<close>) move up
  by 32, which sets bit 5 of the code point (it is clear in that range).
\<close>

definition toLowerChar :: "char \<Rightarrow> char" where
  "toLowerChar c =
     (let n = (of_char c :: nat) in
      if 65 \<le> n \<and> n \<le> 90
      then (case c of Char b0 b1 b2 b3 b4 b5 b6 b7 \<Rightarrow> Char b0 b1 b2 b3 b4 True b6 b7)
      else c)"

definition toLowerCase :: "string \<Rightarrow> string" where
  "toLowerCase s = map toLowerChar s"

text \<open>\<open>s.includes(sub)\<close>: \<open>sub\<close> occurs in \<open>s\<close> as a contiguous run.\<close>

fun str_includes :: "string \<Rightarrow> string \<Rightarrow> bool" where
  "str_includes [] sub = (sub = [])"
| "str_includes (c # cs) sub = (prefix sub (c # cs) \<or> str_includes cs sub)"

section \<open>Failure analyzer (src/reporting/analysis/failure-analyzer.ts)\<close>

datatype FailureCategory =
  Timeout | Assertion | ElementNotFound | Network | Navigation | Authentication | Data | Unknown

datatype Severity = High | Medium | Low

definition categorizeFailure :: "TestError \<Rightarrow> FailureCategory" where
  "categorizeFailure err =
     (let msg = toLowerCase (message err); type = toLowerCase (etype err) in
      if str_includes msg ''timeout'' \<or> str_includes type ''timeout'' then Timeout
      else if str_includes msg ''expect'' \<or> str_includes msg ''assert'' \<or> str_includes type ''assertion''
        then Assertion
      else if str_includes msg ''locator'' \<or> str_includes msg ''element'' \<or> str_includes msg ''selector''
        then ElementNotFound
      else if str_includes msg ''network'' \<or> str_includes msg ''net::'' \<or> str_includes msg ''fetch''
        then Network
      else if str_includes msg ''navigation'' \<or> str_includes msg ''goto'' then Navigation
      else if str_includes msg ''authentication'' \<or> str_includes msg ''login''
              \<or> str_includes msg ''unauthorized''
        then Authentication
      else if str_includes msg ''data'' \<or> str_includes msg ''validation'' then Data
      else Unknown)"

text \<open>
  The same decision as a declarative table, in priority order: per category the keywords
  looked for in the lower-cased message and those looked for in the lower-cased type.
\<close>

definition categoryRules :: "(FailureCategory \<times> string list \<times> string list) list" where
  "categoryRules =
     [(Timeout, [''timeout''], [''timeout'']),
      (Assertion, [''expect'', ''assert''], [''assertion'']),
      (ElementNotFound, [''locator'', ''element'', ''selector''], []),
      (Network, [''network'', ''net::'', ''fetch''], []),
      (Navigation, [''navigation'', ''goto''], []),
      (Authentication, [''authentication'', ''login'', ''unauthorized''], []),
      (Data, [''data'', ''validation''], [])]"

fun firstRule ::
  "(FailureCategory \<times> string list \<times> string list) list \<Rightarrow> string \<Rightarrow> string \<Rightarrow> FailureCategory"
where
  "firstRule [] msg type = Unknown"
| "firstRule ((c, mks, tks) # rs) msg type =
     (if list_ex (str_includes msg) mks \<or> list_ex (str_includes type) tks then c
      else firstRule rs msg type)"

text \<open>
  The categorisation as the specification words it: every category's keywords are looked
  for, in the same priority order, in the lower-cased concatenation of message and type.
\<close>

fun firstKeyword :: "(FailureCategory \<times> string list \<times> string list) list \<Rightarrow> string \<Rightarrow> FailureCategory"
where
  "firstKeyword [] s = Unknown"
| "firstKeyword ((c, mks, tks) # rs) s =
     (if list_ex (str_includes s) (mks @ tks) then c else firstKeyword rs s)"

definition categorize_combined_spec :: "TestError \<Rightarrow> FailureCategory" where
  "categorize_combined_spec err =
     firstKeyword categoryRules (toLowerCase (message err @ etype err))"

subsection \<open>Pattern extraction\<close>

definition isDigit :: "char \<Rightarrow> bool" where
  "isDigit c = (let n = (of_char c :: nat) in 48 \<le> n \<and> n \<le> 57)"

definition isQuote :: "char \<Rightarrow> bool" where
  "isQuote c = (c = CHR 0x27 \<or> c = CHR 0x22)"

text \<open>
  \<open>/Timeout (\d+)ms/\<close> anchored at the head of \<open>s\<close>: the capture, if the expression
  matches there. The digits are taken greedily; a shorter run cannot be followed by \<open>ms\<close>.
\<close>

definition timeoutAt :: "string \<Rightarrow> string option" where
  "timeoutAt s =
     (if prefix ''Timeout '' s then
        (let rest = drop 8 s; ds = takeWhile isDigit rest in
         if ds \<noteq> [] \<and> prefix ''ms'' (dropWhile isDigit rest) then Some ds else None)
      else None)"

text \<open>\<open>/locator\(['"]([^'"]+)['"]\)/\<close> anchored at the head of \<open>s\<close>.\<close>

definition locatorAt :: "string \<Rightarrow> string option" where
  "locatorAt s =
     (if prefix ''locator('' s then
        (case drop 8 s of
           [] \<Rightarrow> None
         | q # rest \<Rightarrow>
             (let lit = takeWhile (\<lambda>c. \<not> isQuote c) rest;
                  after = dropWhile (\<lambda>c. \<not> isQuote c) rest in
              if isQuote q \<and> lit \<noteq> [] \<and> after \<noteq> [] \<and> prefix '')'' (tl after)
              then Some lit else None))
      else None)"

text \<open>\<open>/expect\(([^)]+)\)/\<close> anchored at the head of \<open>s\<close>.\<close>

definition expectAt :: "string \<Rightarrow> string option" where
  "expectAt s =
     (if prefix ''expect('' s then
        (let rest = drop 7 s;
             expr = takeWhile (\<lambda>c. c \<noteq> CHR '')'') rest;
             after = dropWhile (\<lambda>c. c \<noteq> CHR '')'') rest in
         if expr \<noteq> [] \<and> after \<noteq> [] then Some expr else None)
      else None)"

text \<open>\<open>message.match(re)\<close>: the capture of the leftmost match, \<open>None\<close> for \<open>null\<close>.\<close>

fun firstMatchOf :: "(string \<Rightarrow> string option) \<Rightarrow> string \<Rightarrow> string option" where
  "firstMatchOf re [] = None"
| "firstMatchOf re (c # cs) =
     (case re (c # cs) of Some g \<Rightarrow> Some g | None \<Rightarrow> firstMatchOf re cs)"

definition extractPattern :: "TestError \<Rightarrow> string" where
  "extractPattern err =
     (let msg = message err in
      if str_includes msg ''Timeout'' then
        (case firstMatchOf timeoutAt msg of
           Some n \<Rightarrow> ''Timeout '' @ n @ ''ms'' | None \<Rightarrow> ''Timeout'')
      else if str_includes msg ''locator'' then
        (case firstMatchOf locatorAt msg of
           Some l \<Rightarrow> ''Locator: '' @ l | None \<Rightarrow> ''Locator not found'')
      else if str_includes msg ''expect'' then
        (case firstMatchOf expectAt msg of
           Some e \<Rightarrow> ''Assertion failed: '' @ e | None \<Rightarrow> ''Assertion failed'')
      else take 100 (takeWhile (\<lambda>c. c \<noteq> CHR 0x0A) msg))"

subsection \<open>Fixed tables\<close>

fun categoryName :: "FailureCategory \<Rightarrow> string" where
  "categoryName Timeout = ''timeout''"
| "categoryName Assertion = ''assertion''"
| "categoryName ElementNotFound = ''element-not-found''"
| "categoryName Network = ''network''"
| "categoryName Navigation = ''navigation''"
| "categoryName Authentication = ''authentication''"
| "categoryName Data = ''data''"
| "categoryName Unknown = ''unknown''"

fun getPatternDescription :: "FailureCategory \<Rightarrow> string \<Rightarrow> string" where
  "getPatternDescription Timeout p = ''Test exceeded the maximum execution time''"
| "getPatternDescription Assertion p = ''Expected condition was not met''"
| "getPatternDescription ElementNotFound p = ''Could not find the specified element on the page''"
| "getPatternDescription Network p = ''Network request failed or timed out''"
| "getPatternDescription Navigation p = ''Failed to navigate to the specified URL''"
| "getPatternDescription Authentication p = ''Authentication or authorization failed''"
| "getPatternDescription Data p = ''Data validation or processing failed''"
| "getPatternDescription Unknown p = ''Unclassified failure''"

fun calculateSeverity :: "FailureCategory \<Rightarrow> Severity" where
  "calculateSeverity Authentication = High"
| "calculateSeverity Network = High"
| "calculateSeverity Navigation = High"
| "calculateSeverity ElementNotFound = Medium"
| "calculateSeverity Timeout = Medium"
| "calculateSeverity c = Low"

fun getSuggestedFix :: "FailureCategory \<Rightarrow> string \<Rightarrow> string option" where
  "getSuggestedFix Timeout p = Some ''Increase timeout value or optimize test performance. Check for slow network or page loads.''"
| "getSuggestedFix Assertion p = Some ''Review test assertions and ensure expected values are correct.''"
| "getSuggestedFix ElementNotFound p = Some ''Verify element selectors are correct and elements are visible. Consider adding explicit waits.''"
| "getSuggestedFix Network p = Some ''Check network connectivity and API endpoints. Implement retry logic for flaky requests.''"
| "getSuggestedFix Navigation p = Some ''Verify URLs are correct and accessible. Check for redirect issues.''"
| "getSuggestedFix Authentication p = Some ''Verify authentication credentials and flow. Check for expired tokens or sessions.''"
| "getSuggestedFix Data p = Some ''Validate test data format and values. Check data generators and fixtures.''"
| "getSuggestedFix Unknown p = Some ''Review error stack trace and test logs for more details.''"

subsection \<open>Grouping into patterns\<close>

record FailurePattern =
  pattern :: string
  description :: string
  occurrences :: nat
  affectedTests :: "string list"
  severity :: Severity
  category :: FailureCategory
  suggestedFix :: "string option"

text \<open>
  A JavaScript \<open>Map\<close> with string keys is an association list in insertion order: \<open>set\<close>
  on a new key appends, and an entry fetched with \<open>get\<close> is mutated where it stands.
\<close>

fun updateEntry :: "string \<Rightarrow> ('v \<Rightarrow> 'v) \<Rightarrow> (string \<times> 'v) list \<Rightarrow> (string \<times> 'v) list" where
  "updateEntry k f [] = []"
| "updateEntry k f ((k', v) # kvs) =
     (if k' = k then (k', f v) # kvs else (k', v) # updateEntry k f kvs)"

text \<open>
  \<open>xs.sort((a, b) => f(b) - f(a))\<close> for a count \<open>f\<close>: the sort of \<open>Array.prototype.sort\<close>
  is stable, so the result is the stable arrangement of \<open>xs\<close> by descending \<open>f\<close>.
\<close>

definition sortDescBy :: "('a \<Rightarrow> nat) \<Rightarrow> 'a list \<Rightarrow> 'a list" where
  "sortDescBy f xs = sort_key (\<lambda>x. - int (f x)) xs"

definition patternKey :: "FailureCategory \<Rightarrow> string \<Rightarrow> string" where
  "patternKey c p = categoryName c @ '':'' @ p"

text \<open>The body of the \<open>forEach\<close> of \<open>analyzeFailures\<close>, for one test.\<close>

definition addToPatterns ::
  "(string \<times> FailurePattern) list \<Rightarrow> TestResult \<Rightarrow> (string \<times> FailurePattern) list"
where
  "addToPatterns patterns test =
     (case error test of
        None \<Rightarrow> patterns
      | Some err \<Rightarrow>
          (let cat = categorizeFailure err;
               pat = extractPattern err;
               key = patternKey cat pat in
           if map_of patterns key \<noteq> None then
             updateEntry key
               (\<lambda>existing. existing
                  \<lparr>occurrences := occurrences existing + 1,
                   affectedTests := affectedTests existing @ [fullName test]\<rparr>)
               patterns
           else
             patterns @
               [(key,
                 \<lparr>pattern = pat,
                  description = getPatternDescription cat pat,
                  occurrences = 1,
                  affectedTests = [fullName test],
                  severity = calculateSeverity cat,
                  category = cat,
                  suggestedFix = getSuggestedFix cat pat\<rparr>)]))"

definition analyzeFailures :: "TestResult list \<Rightarrow> FailurePattern list" where
  "analyzeFailures failedTests =
     sortDescBy occurrences (map snd (foldl addToPatterns [] failedTests))"

section \<open>Metrics collector (src/reporting/metrics/test-metrics.ts)\<close>

text \<open>
  The collector's fields. Every \<open>new Date()\<close> of the source is the argument \<open>now\<close> of the
  operation that evaluates it. The object held in \<open>this.metrics\<close> has an identity,
  \<open>metricsRef\<close>; \<open>nextRef\<close> is the first reference no object has been given yet, so
  that creating an object takes \<open>nextRef\<close> and moves it on. The entries of \<open>topFailures\<close>
  are held by value, as they stand when \<open>finish\<close> runs. The constructor's arguments
  default to \<open>chromium\<close> and \<open>dev\<close> in the source; \<open>newCollector\<close> takes them
  explicitly.
\<close>

record TestMetricsCollector =
  metrics :: TestMetrics
  metricsRef :: nat
  nextRef :: nat
  testResults :: "TestResult list"
  failures :: "(string \<times> FailureAnalysis) list"

definition emptyMetrics :: "string \<Rightarrow> string \<Rightarrow> int \<Rightarrow> TestMetrics" where
  "emptyMetrics b e now =
     \<lparr>total = 0, passed = 0, failed = 0, skipped = 0, flaky = 0,
      m_startTime = now, m_endTime = None, m_duration = 0,
      averageTestDuration = 0, slowestTest = None, fastestTest = None,
      failureRate = 0, topFailures = [],
      browser = b, environment = e\<rparr>"

definition newCollector :: "string \<Rightarrow> string \<Rightarrow> int \<Rightarrow> TestMetricsCollector" where
  "newCollector b e now =
     \<lparr>metrics = emptyMetrics b e now, metricsRef = 0, nextRef = 1,
      testResults = [], failures = []\<rparr>"

definition start :: "TestMetricsCollector \<Rightarrow> int \<Rightarrow> TestMetricsCollector" where
  "start c now = c\<lparr>metrics := (metrics c)\<lparr>m_startTime := now\<rparr>\<rparr>"

definition failureKey :: "TestError \<Rightarrow> string" where
  "failureKey err = etype err @ '':'' @ message err"

definition endTimeOr :: "TestResult \<Rightarrow> int \<Rightarrow> int" where
  "endTimeOr result now = (case endTime result of Some t \<Rightarrow> t | None \<Rightarrow> now)"

definition recordFailure :: "TestMetricsCollector \<Rightarrow> TestResult \<Rightarrow> int \<Rightarrow> TestMetricsCollector" where
  "recordFailure c result now =
     (case error result of
        None \<Rightarrow> c
      | Some err \<Rightarrow>
          (let key = failureKey err in
           case map_of (failures c) key of
             Some existing \<Rightarrow>
               c\<lparr>failures :=
                   updateEntry key
                     (\<lambda>ex. ex\<lparr>count := count ex + 1,
                               tests := tests ex @ [fullName result],
                               lastOccurrence := endTimeOr result now\<rparr>)
                     (failures c)\<rparr>
           | None \<Rightarrow>
               c\<lparr>failures :=
                   failures c @
                     [(key,
                       \<lparr>errorType = etype err,
                        errorMessage = message err,
                        count = 1,
                        tests = [fullName result],
                        firstOccurrence = endTimeOr result now,
                        lastOccurrence = endTimeOr result now\<rparr>)]\<rparr>))"

definition isSlower :: "TestResult \<Rightarrow> TestResult option \<Rightarrow> bool" where
  "isSlower result cur = (case cur of None \<Rightarrow> True | Some s \<Rightarrow> duration result > duration s)"

definition isFaster :: "TestResult \<Rightarrow> TestResult option \<Rightarrow> bool" where
  "isFaster result cur = (case cur of None \<Rightarrow> True | Some f \<Rightarrow> duration result < duration f)"

text \<open>
  Called by \<open>recordTest\<close> only, after the result has been pushed, so \<open>testResults\<close> is
  not empty where the average is taken.
\<close>

definition updatePerformanceMetrics :: "TestMetricsCollector \<Rightarrow> TestResult \<Rightarrow> TestMetricsCollector" where
  "updatePerformanceMetrics c result =
     (let m = metrics c;
          m1 = (if isSlower result (slowestTest m) then m\<lparr>slowestTest := Some result\<rparr> else m);
          m2 = (if status result = Passed \<and> isFaster result (fastestTest m1)
                then m1\<lparr>fastestTest := Some result\<rparr> else m1);
          totalDuration = foldl (\<lambda>sum t. sum + duration t) 0 (testResults c)
      in c\<lparr>metrics := m2\<lparr>averageTestDuration := totalDuration / of_nat (length (testResults c))\<rparr>\<rparr>)"

definition recordTest :: "TestMetricsCollector \<Rightarrow> TestResult \<Rightarrow> int \<Rightarrow> TestMetricsCollector" where
  "recordTest c result now =
     (let c1 = c\<lparr>testResults := testResults c @ [result],
                 metrics := (metrics c)\<lparr>total := total (metrics c) + 1\<rparr>\<rparr>;
          c2 = (case status result of
                  Passed \<Rightarrow> c1\<lparr>metrics := (metrics c1)\<lparr>passed := passed (metrics c1) + 1\<rparr>\<rparr>
                | Failed \<Rightarrow>
                    recordFailure
                      (c1\<lparr>metrics := (metrics c1)\<lparr>failed := failed (metrics c1) + 1\<rparr>\<rparr>)
                      result now
                | Skipped \<Rightarrow> c1\<lparr>metrics := (metrics c1)\<lparr>skipped := skipped (metrics c1) + 1\<rparr>\<rparr>
                | Flaky \<Rightarrow> c1\<lparr>metrics := (metrics c1)\<lparr>flaky := flaky (metrics c1) + 1\<rparr>\<rparr>)
      in updatePerformanceMetrics c2 result)"

definition finish :: "TestMetricsCollector \<Rightarrow> int \<Rightarrow> TestMetricsCollector" where
  "finish c now =
     (let m = metrics c;
          m1 = m\<lparr>m_endTime := Some now, m_duration := now - m_startTime m\<rparr>;
          m2 = (if total m1 > 0
                then m1\<lparr>failureRate := (of_nat (failed m1) / of_nat (total m1)) * 100\<rparr>
                else m1)
      in c\<lparr>metrics := m2\<lparr>topFailures := take 10 (sortDescBy count (map snd (failures c)))\<rparr>\<rparr>)"

text \<open>
  \<open>getMetrics\<close> returns a new object, \<open>{ ...this.metrics }\<close>: its reference and its
  fields, and the collector after the allocation.
\<close>

definition getMetrics :: "TestMetricsCollector \<Rightarrow> (nat \<times> TestMetrics) \<times> TestMetricsCollector" where
  "getMetrics c = ((nextRef c, metrics c), c\<lparr>nextRef := Suc (nextRef c)\<rparr>)"

definition getTestResults :: "TestMetricsCollector \<Rightarrow> TestResult list" where
  "getTestResults c = testResults c"

definition getFailedTests :: "TestMetricsCollector \<Rightarrow> TestResult list" where
  "getFailedTests c = filter (\<lambda>t. status t = Failed) (testResults c)"

text \<open>
  Binary64 arithmetic. \<open>binade x\<close> is the exponent \<open>e\<close> with \<open>2^e \<le> x < 2^(e+1)\<close>, for a
  positive \<open>x\<close>. \<open>toDouble x\<close> is the double nearest to \<open>x\<close>, the one with the even
  significand on a tie: a multiple of \<open>2^(e - 52)\<close>, where \<open>e\<close> is the binade of \<open>x\<close> and
  at least -1022 (below that the doubles are subnormal and equally spaced). It is the
  result of an operation whose exact result is \<open>x\<close>, as long as \<open>x\<close> is below \<open>2^1024\<close> in
  absolute value; nothing in \<open>getPassRate\<close> comes near that.
\<close>

definition binade :: "rat \<Rightarrow> int" where
  "binade x = (if 1 \<le> x then bitlen \<lfloor>x\<rfloor> - 1 else - bitlen (\<lceil>1 / x\<rceil> - 1))"

definition roundHalfEven :: "rat \<Rightarrow> int" where
  "roundHalfEven y =
     (let n = \<lfloor>y\<rfloor>; r = y - of_int n in
      if r < 1 / 2 then n else if 1 / 2 < r then n + 1 else if even n then n else n + 1)"

definition toDouble :: "rat \<Rightarrow> rat" where
  "toDouble x =
     (if x = 0 then 0
      else (let e = max (binade \<bar>x\<bar>) (- 1022); q = 2 powi (e - 52) in
            sgn x * of_int (roundHalfEven (\<bar>x\<bar> / q)) * q))"

text \<open>
  \<open>(this.metrics.passed / this.metrics.total) * 100\<close>: the quotient is rounded to a double,
  and so is its product with 100. The two counters are integers below \<open>2^53\<close>, which
  doubles hold exactly.
\<close>

definition getPassRate :: "TestMetricsCollector \<Rightarrow> rat" where
  "getPassRate c =
     (if total (metrics c) = 0 then 0
      else toDouble (toDouble (of_nat (passed (metrics c)) / of_nat (total (metrics c))) * 100))"

definition reset :: "TestMetricsCollector \<Rightarrow> int \<Rightarrow> TestMetricsCollector" where
  "reset c now =
     c\<lparr>metrics := emptyMetrics (browser (metrics c)) (environment (metrics c)) now,
       metricsRef := nextRef c,
       nextRef := Suc (nextRef c),
       testResults := [],
       failures := []\<rparr>"

text \<open>The calls a client can make on a collector, and a sequence of them.\<close>

datatype Call =
    Start int
  | RecordTest TestResult int
  | Finish int
  | GetMetrics
  | Reset int

fun call :: "TestMetricsCollector \<Rightarrow> Call \<Rightarrow> TestMetricsCollector" where
  "call c (Start now) = start c now"
| "call c (RecordTest result now) = recordTest c result now"
| "call c (Finish now) = finish c now"
| "call c GetMetrics = snd (getMetrics c)"
| "call c (Reset now) = reset c now"

definition calls :: "TestMetricsCollector \<Rightarrow> Call list \<Rightarrow> TestMetricsCollector" where
  "calls c cs = foldl call c cs"

section \<open>Report header (HTMLReportGenerator.buildHeader)\<close>

text \<open>
  The quotient of two counters as a JavaScript number: \<open>0/0\<close> is \<open>NaN\<close> and \<open>n/0\<close> is
  \<open>Infinity\<close> for a positive \<open>n\<close>; a finite value is held exactly.
\<close>

datatype jsnum = NaN | PosInfinity | Num rat

definition divCounts :: "nat \<Rightarrow> nat \<Rightarrow> jsnum" where
  "divCounts n d = (if d = 0 then (if n = 0 then NaN else PosInfinity) else Num (of_nat n / of_nat d))"

fun timesNum :: "jsnum \<Rightarrow> rat \<Rightarrow> jsnum" where
  "timesNum NaN k = NaN"
| "timesNum PosInfinity k = PosInfinity"
| "timesNum (Num x) k = Num (x * k)"

text \<open>
  \<open>x.toFixed(1)\<close> for \<open>x \<ge> 0\<close>: the string \<open>NaN\<close>, the string \<open>Infinity\<close>, or the
  decimal numeral of \<open>n / 10\<close> where \<open>n\<close> is the integer nearest to \<open>10 * x\<close>, the larger
  one on a tie. \<open>parseFloat\<close> reads the number back. (From \<open>10^21\<close> on \<open>toFixed\<close>
  writes the number in exponent form instead; what \<open>parseFloat\<close> reads back is then the
  number itself, and the comparisons with 80 and 50 come out the same.)
\<close>

datatype fixed1 = StrNaN | StrInfinity | Tenths int

fun toFixed1 :: "jsnum \<Rightarrow> fixed1" where
  "toFixed1 NaN = StrNaN"
| "toFixed1 PosInfinity = StrInfinity"
| "toFixed1 (Num x) = Tenths \<lfloor>x * 10 + 1 / 2\<rfloor>"

fun parseFloat :: "fixed1 \<Rightarrow> jsnum" where
  "parseFloat StrNaN = NaN"
| "parseFloat StrInfinity = PosInfinity"
| "parseFloat (Tenths n) = Num (of_int n / 10)"

fun numAtLeast :: "jsnum \<Rightarrow> rat \<Rightarrow> bool" where
  "numAtLeast NaN k = False"
| "numAtLeast PosInfinity k = True"
| "numAtLeast (Num x) k = (x \<ge> k)"

text \<open>The \<open>statusClass\<close> that \<open>buildHeader\<close> writes into the header's pass-rate element.\<close>

definition statusClass :: "TestMetrics \<Rightarrow> string" where
  "statusClass m =
     (let passRate = toFixed1 (timesNum (divCounts (passed m) (total m)) 100) in
      if numAtLeast (parseFloat passRate) 80 then ''success''
      else if numAtLeast (parseFloat passRate) 50 then ''warning''
      else ''error'')"

section \<open>Definitions used in the properties\<close>

definition counts_ok :: "TestMetrics \<Rightarrow> bool" where
  "counts_ok m = (total m = passed m + failed m + skipped m + flaky m)"

definition recordAll :: "TestMetricsCollector \<Rightarrow> (TestResult \<times> int) list \<Rightarrow> TestMetricsCollector" where
  "recordAll c rs = calls c (map (\<lambda>(r, now). RecordTest r now) rs)"

text \<open>The distinct elements of a list, in the order of their first occurrence.\<close>

definition firstSeen :: "'a list \<Rightarrow> 'a list" where
  "firstSeen xs = rev (remdups (rev xs))"



text \<open>A failed result with an error, for the concrete instances below.\<close>

definition sampleFailed :: "string \<Rightarrow> string \<Rightarrow> TestResult" where
  "sampleFailed nm msg =
     \<lparr>name = nm, fullName = ''Suite > '' @ nm, status = Failed, duration = 50,
      startTime = 0, endTime = Some 50,
      error = Some \<lparr>message = msg, stack = None, etype = ''Error'', location = None\<rparr>,
      retries = 0, attachments = [], tags = []\<rparr>"

text \<open>A failed result that carries no error object.\<close>

definition sampleNoError :: TestResult where
  "sampleNoError =
     \<lparr>name = ''n'', fullName = ''Suite > n'', status = Failed, duration = 70,
      startTime = 0, endTime = Some 70, error = None,
      retries = 0, attachments = [], tags = []\<rparr>"

definition same_index :: "TestMetricsCollector \<Rightarrow> TestMetricsCollector \<Rightarrow> bool" where
  "same_index c d =
     (failures c = failures d \<and> topFailures (metrics c) = topFailures (metrics d))"

text \<open>
  The grouping as the specification words it. Each test with an error belongs to the
  pair of its category and its pattern; a pair's pattern record counts the tests of the
  pair and lists their full names in the order of the tests; the records stand in the
  order in which the pairs are first seen, and are then put in descending order of
  \<open>occurrences\<close>, records of equal count keeping their order.
\<close>

definition groupOf :: "TestError \<Rightarrow> FailureCategory \<times> string" where
  "groupOf err = (categorizeFailure err, extractPattern err)"

definition groupedErrors :: "TestResult list \<Rightarrow> ((FailureCategory \<times> string) \<times> string) list" where
  "groupedErrors ts =
     concat (map (\<lambda>t. case error t of None \<Rightarrow> [] | Some err \<Rightarrow> [(groupOf err, fullName t)]) ts)"

definition namesOf :: "TestResult list \<Rightarrow> FailureCategory \<times> string \<Rightarrow> string list" where
  "namesOf ts g = map snd (filter (\<lambda>x. fst x = g) (groupedErrors ts))"

definition patternFor :: "TestResult list \<Rightarrow> FailureCategory \<times> string \<Rightarrow> FailurePattern" where
  "patternFor ts g =
     \<lparr>pattern = snd g,
      description = getPatternDescription (fst g) (snd g),
      occurrences = length (namesOf ts g),
      affectedTests = namesOf ts g,
      severity = calculateSeverity (fst g),
      category = fst g,
      suggestedFix = getSuggestedFix (fst g) (snd g)\<rparr>"

definition analyzeFailures_spec :: "TestResult list \<Rightarrow> FailurePattern list" where
  "analyzeFailures_spec ts =
     sortDescBy occurrences (map (patternFor ts) (firstSeen (map fst (groupedErrors ts))))"

definition groupKey :: "FailureCategory \<times> string \<Rightarrow> string" where
  "groupKey g = patternKey (fst g) (snd g)"

text \<open>The results of scenario A, for the concrete instance below.\<close>

definition samplePassed :: "string \<Rightarrow> rat \<Rightarrow> TestResult" where
  "samplePassed nm d =
     \<lparr>name = nm, fullName = ''Suite > '' @ nm, status = Passed, duration = d,
      startTime = 0, endTime = None, error = None,
      retries = 0, attachments = [], tags = []\<rparr>"

definition timeoutError :: TestError where
  "timeoutError =
     \<lparr>message = ''Timeout 5000ms exceeded'', stack = None, etype = ''TimeoutError'',
      location = None\<rparr>"

definition sampleTimeout :: TestResult where
  "sampleTimeout =
     \<lparr>name = ''t'', fullName = ''Suite > t'', status = Failed, duration = 5000,
      startTime = 0, endTime = Some 5000, error = Some timeoutError,
      retries = 0, attachments = [], tags = []\<rparr>"

text \<open>
  The pass rate as the specification words it: exactly \<open>passed / total * 100\<close>, and 0
  when \<open>total\<close> is 0.
\<close>

definition passRate_exact_spec :: "TestMetricsCollector \<Rightarrow> rat" where
  "passRate_exact_spec c =
     (if total (metrics c) = 0 then 0
      else of_nat (passed (metrics c)) / of_nat (total (metrics c)) * 100)"

text \<open>A run of 25 results of which 7 passed, on a started collector.\<close>

definition sevenOfTwentyFive :: TestMetricsCollector where
  "sevenOfTwentyFive =
     recordAll (start (newCollector ''chromium'' ''dev'' 0) 1)
       (replicate 7 (samplePassed ''a'' 100, 2) @ replicate 18 (sampleNoError, 3))"

fun isRecordTest :: "Call \<Rightarrow> bool" where
  "isRecordTest (RecordTest r now) = True"
| "isRecordTest c = False"

text \<open>
  The status class as the specification words it: decided by the pass rate
  \<open>passed / total * 100\<close> itself, at least 80, at least 50, or neither.
\<close>

definition statusClass_spec :: "TestMetrics \<Rightarrow> string" where
  "statusClass_spec m =
     (let rate = timesNum (divCounts (passed m) (total m)) 100 in
      if numAtLeast rate 80 then ''success''
      else if numAtLeast rate 50 then ''warning''
      else ''error'')"

section \<open>Properties of the failure analyzer\<close>

lemma str_includes_sublist: "str_includes s sub = sublist sub s"
  by (induction s) (simp_all add: sublist_Cons_right)

text \<open>
  What the three anchored matchers accept is an instance of their regular expression: a
  capture returned for \<open>s\<close> stands in \<open>s\<close> between the literal parts.
\<close>

lemma prefix_drop: "prefix p s \<Longrightarrow> length p = n \<Longrightarrow> s = p @ drop n s"
  by (auto simp: prefix_def)

lemma timeoutAt_Some:
  assumes "timeoutAt s = Some d"
  shows "d \<noteq> [] \<and> list_all isDigit d \<and> prefix (''Timeout '' @ d @ ''ms'') s"
proof -
  from assms have p: "prefix ''Timeout '' s"
    by (simp add: timeoutAt_def split: if_splits)
  let ?rest = "drop 8 s"
  from assms p have d: "d = takeWhile isDigit ?rest" and ne: "d \<noteq> []"
    and ms: "prefix ''ms'' (dropWhile isDigit ?rest)"
    by (auto simp: timeoutAt_def Let_def split: if_splits)
  have s: "s = ''Timeout '' @ ?rest"
    by (rule prefix_drop [OF p]) simp
  have "?rest = d @ dropWhile isDigit ?rest"
    by (simp add: d)
  moreover from ms obtain q where "dropWhile isDigit ?rest = ''ms'' @ q"
    by (auto simp: prefix_def)
  ultimately have "?rest = d @ ''ms'' @ q" by simp
  with s have "s = ''Timeout '' @ d @ ''ms'' @ q" by simp
  then have "prefix (''Timeout '' @ d @ ''ms'') s"
    by (metis append.assoc prefixI)
  moreover have "list_all isDigit d"
    unfolding d list_all_iff using set_takeWhileD by fastforce
  ultimately show ?thesis using ne by simp
qed

lemma firstMatchOf_Some:
  "firstMatchOf re s = Some g \<Longrightarrow> \<exists>p t. s = p @ t \<and> re t = Some g"
proof (induction s)
  case Nil
  then show ?case by simp
next
  case (Cons c cs)
  show ?case
  proof (cases "re (c # cs)")
    case None
    with Cons.prems have "firstMatchOf re cs = Some g" by simp
    from Cons.IH [OF this] obtain p t where "cs = p @ t" "re t = Some g" by blast
    then have "c # cs = (c # p) @ t \<and> re t = Some g" by simp
    then show ?thesis by blast
  next
    case (Some h)
    with Cons.prems have "h = g" by simp
    with Some have "c # cs = [] @ (c # cs) \<and> re (c # cs) = Some g" by simp
    then show ?thesis by blast
  qed
qed

lemma timeout_match_sound:
  assumes "firstMatchOf timeoutAt s = Some d"
  shows "d \<noteq> [] \<and> list_all isDigit d \<and> sublist (''Timeout '' @ d @ ''ms'') s"
proof -
  from firstMatchOf_Some [OF assms] obtain p t where s: "s = p @ t" and t: "timeoutAt t = Some d"
    by blast
  from timeoutAt_Some [OF t] have "d \<noteq> []" "list_all isDigit d"
    and "prefix (''Timeout '' @ d @ ''ms'') t" by simp_all
  then show ?thesis
    unfolding s by (auto simp: sublist_append intro: prefix_imp_sublist)
qed

lemma dropWhile_hd:
  assumes "dropWhile P xs \<noteq> []"
  shows "\<exists>a q. dropWhile P xs = a # q \<and> \<not> P a"
proof -
  from assms obtain a q where d: "dropWhile P xs = a # q"
    by (cases "dropWhile P xs") auto
  from hd_dropWhile [OF assms] d have "\<not> P a" by simp
  with d show ?thesis by blast
qed

lemma expectAt_Some:
  assumes "expectAt s = Some e"
  shows "e \<noteq> [] \<and> CHR '')'' \<notin> set e \<and> prefix (''expect('' @ e @ '')'') s"
proof -
  from assms have p: "prefix ''expect('' s"
    by (simp add: expectAt_def split: if_splits)
  let ?rest = "drop 7 s"
  let ?P = "\<lambda>c. c \<noteq> CHR '')''"
  from assms p have e: "e = takeWhile ?P ?rest" and ne: "e \<noteq> []"
    and after: "dropWhile ?P ?rest \<noteq> []"
    by (auto simp: expectAt_def Let_def split: if_splits)
  have s: "s = ''expect('' @ ?rest"
    by (rule prefix_drop [OF p]) simp
  from dropWhile_hd [OF after] obtain q where "dropWhile ?P ?rest = CHR '')'' # q"
    by blast
  moreover have "?rest = e @ dropWhile ?P ?rest"
    by (simp add: e)
  ultimately have "?rest = e @ '')'' @ q" by simp
  with s have "s = ''expect('' @ e @ '')'' @ q" by simp
  then have "prefix (''expect('' @ e @ '')'') s"
    by (metis append.assoc prefixI)
  moreover have "CHR '')'' \<notin> set e"
    unfolding e using set_takeWhileD by fastforce
  ultimately show ?thesis using ne by simp
qed

lemma locatorAt_Some:
  assumes "locatorAt s = Some l"
  shows "l \<noteq> [] \<and> list_all (\<lambda>c. \<not> isQuote c) l
    \<and> (\<exists>q1 q2. isQuote q1 \<and> isQuote q2 \<and> prefix (''locator('' @ [q1] @ l @ [q2] @ '')'') s)"
proof -
  from assms have p: "prefix ''locator('' s"
    by (simp add: locatorAt_def split: if_splits)
  have s: "s = ''locator('' @ drop 8 s"
    by (rule prefix_drop [OF p]) simp
  let ?P = "\<lambda>c. \<not> isQuote c"
  from assms p obtain q1 rest where d: "drop 8 s = q1 # rest"
    by (cases "drop 8 s") (auto simp: locatorAt_def)
  from assms p d have l: "l = takeWhile ?P rest" and ne: "l \<noteq> []" and q1: "isQuote q1"
    and after: "dropWhile ?P rest \<noteq> []" and close: "prefix '')'' (tl (dropWhile ?P rest))"
    by (auto simp: locatorAt_def Let_def split: if_splits)
  from dropWhile_hd [OF after] obtain q2 t where a: "dropWhile ?P rest = q2 # t" and q2: "isQuote q2"
    by blast
  from close a obtain u where t: "t = '')'' @ u"
    by (auto simp: prefix_def)
  have "rest = l @ dropWhile ?P rest"
    by (simp add: l)
  with a t have "rest = l @ [q2] @ '')'' @ u" by simp
  with s d have "s = ''locator('' @ [q1] @ l @ [q2] @ '')'' @ u" by simp
  then have "prefix (''locator('' @ [q1] @ l @ [q2] @ '')'') s"
    by (metis append.assoc prefixI)
  moreover have "list_all ?P l"
    unfolding l list_all_iff using set_takeWhileD by fastforce
  ultimately show ?thesis using ne q1 q2 by blast
qed

lemma categorizeFailure_table:
  "categorizeFailure err =
     firstRule categoryRules (toLowerCase (message err)) (toLowerCase (etype err))"
  by (simp add: categorizeFailure_def categoryRules_def Let_def)

lemma categorizeFailure_type_only_two:
  assumes "str_includes (toLowerCase t) ''timeout'' = str_includes (toLowerCase (etype err)) ''timeout''"
    and "str_includes (toLowerCase t) ''assertion'' = str_includes (toLowerCase (etype err)) ''assertion''"
  shows "categorizeFailure (err\<lparr>etype := t\<rparr>) = categorizeFailure err"
  using assms by (simp add: categorizeFailure_def Let_def)

text \<open>
  C1, as stated, fails. An error with message \<open>boom\<close> and type \<open>NetworkError\<close> has the
  keyword \<open>network\<close> in its type only: the ordered checks on the lower-cased concatenation
  of message and type give \<open>network\<close>, and \<open>categorizeFailure\<close> gives \<open>unknown\<close>.
\<close>

theorem C1_type_keyword_counterexample:
  "str_includes (toLowerCase ''NetworkError'') ''network''
   \<and> categorize_combined_spec
     \<lparr>message = ''boom'', stack = None, etype = ''NetworkError'', location = None\<rparr> = Network
   \<and> categorizeFailure
     \<lparr>message = ''boom'', stack = None, etype = ''NetworkError'', location = None\<rparr> = Unknown"
  by (simp add: categorize_combined_spec_def categoryRules_def categorizeFailure_def
      toLowerCase_def toLowerChar_def)

text \<open>
  C1, amended. \<open>categorizeFailure\<close> is the first match, in the order timeout, assertion,
  element-not-found, network, navigation, authentication, data, of the keyword table
  \<open>categoryRules\<close>, with unknown as the fallback: every category's keywords are looked for in
  the lower-cased message, and the lower-cased type is looked at for \<open>timeout\<close> and
  \<open>assertion\<close> only. So two types that agree on containing \<open>timeout\<close> and on containing
  \<open>assertion\<close> give the same category.
\<close>

theorem C1_categorizeFailure_first_match:
  "categorizeFailure err =
     firstRule categoryRules (toLowerCase (message err)) (toLowerCase (etype err))
   \<and> (str_includes (toLowerCase t) ''timeout'' = str_includes (toLowerCase (etype err)) ''timeout''
        \<and> str_includes (toLowerCase t) ''assertion'' = str_includes (toLowerCase (etype err)) ''assertion''
      \<longrightarrow> categorizeFailure (err\<lparr>etype := t\<rparr>) = categorizeFailure err)"
  using categorizeFailure_table categorizeFailure_type_only_two by blast

theorem C1_categorizeFailure_first_match_witness:
  "categorizeFailure
     \<lparr>message = ''page.goto: net::ERR_FAILED'', stack = None, etype = ''Error'', location = None\<rparr>
   = Network
   \<and> categorizeFailure
     \<lparr>message = ''page.goto: net::ERR_FAILED'', stack = None, etype = ''NetworkError'',
      location = None\<rparr>
   = Network"
proof -
  let ?err = "\<lparr>message = ''page.goto: net::ERR_FAILED'', stack = None, etype = ''Error'',
                location = None\<rparr>"
  have first: "firstRule categoryRules (toLowerCase (message ?err)) (toLowerCase (etype ?err)) = Network"
    by (simp add: categoryRules_def toLowerCase_def toLowerChar_def)
  have agree: "str_includes (toLowerCase ''NetworkError'') ''timeout''
                 = str_includes (toLowerCase (etype ?err)) ''timeout''
               \<and> str_includes (toLowerCase ''NetworkError'') ''assertion''
                 = str_includes (toLowerCase (etype ?err)) ''assertion''"
    by (simp add: toLowerCase_def toLowerChar_def)
  from C1_categorizeFailure_first_match [of ?err "''NetworkError''"] first agree
  show ?thesis by simp
qed

lemma firstSeen_Nil: "firstSeen [] = []"
  by (simp add: firstSeen_def)
lemma firstSeen_snoc:
  "firstSeen (xs @ [x]) = (if x \<in> set xs then firstSeen xs else firstSeen xs @ [x])"
  by (simp add: firstSeen_def)
lemma set_firstSeen: "set (firstSeen xs) = set xs"
  by (simp add: firstSeen_def)
lemma distinct_firstSeen: "distinct (firstSeen xs)"
  by (simp add: firstSeen_def)

lemma mset_sortDescBy: "mset (sortDescBy f xs) = mset xs"
  by (simp add: sortDescBy_def)

lemma sorted_sortDescBy: "sorted_wrt (\<lambda>a b. f a \<ge> f b) (sortDescBy f xs)"
proof -
  have "sorted (map (\<lambda>x. - int (f x)) (sortDescBy f xs))"
    by (simp add: sortDescBy_def)
  then show ?thesis by (simp add: sorted_map)
qed

lemma stable_sortDescBy: "filter (\<lambda>x. f x = k) (sortDescBy f xs) = filter (\<lambda>x. f x = k) xs"
  using sort_key_stable [of "\<lambda>x. - int (f x)" "- int k" xs]
  by (simp add: sortDescBy_def)

lemma patternKey_inj: "(patternKey c p = patternKey c' p') = (c = c' \<and> p = p')"
  by (cases c; cases c') (simp_all add: patternKey_def)

lemma groupKey_inj: "(groupKey g = groupKey h) = (g = h)"
  by (cases g; cases h) (simp add: groupKey_def patternKey_inj)

lemma updateEntry_keyed:
  assumes "distinct gs"
  shows "updateEntry (groupKey g) f (map (\<lambda>h. (groupKey h, v h)) gs)
       = map (\<lambda>h. (groupKey h, if h = g then f (v h) else v h)) gs"
  using assms
proof (induction gs)
  case Nil
  then show ?case by simp
next
  case (Cons a gs)
  show ?case
  proof (cases "a = g")
    case True
    with Cons.prems have "g \<notin> set gs" by simp
    then have "map (\<lambda>h. (groupKey h, if h = g then f (v h) else v h)) gs
        = map (\<lambda>h. (groupKey h, v h)) gs"
      by (intro map_cong) auto
    with True show ?thesis by simp
  next
    case False
    with Cons show ?thesis by (simp add: groupKey_inj)
  qed
qed

lemma map_of_keyed:
  "(map_of (map (\<lambda>h. (groupKey h, v h)) gs) (groupKey g) \<noteq> None) = (g \<in> set gs)"
proof -
  have "(map_of (map (\<lambda>h. (groupKey h, v h)) gs) (groupKey g) \<noteq> None)
      = (groupKey g \<in> groupKey ` set gs)"
    by (simp add: map_of_eq_None_iff image_image)
  also have "\<dots> = (g \<in> set gs)"
    by (auto simp: groupKey_inj)
  finally show ?thesis .
qed

lemma groupedErrors_snoc_None: "error t = None \<Longrightarrow> groupedErrors (ts @ [t]) = groupedErrors ts"
  by (simp add: groupedErrors_def)

lemma groupedErrors_snoc_Some:
  "error t = Some err \<Longrightarrow> groupedErrors (ts @ [t]) = groupedErrors ts @ [(groupOf err, fullName t)]"
  by (simp add: groupedErrors_def)

lemma patternFor_snoc:
  assumes "error t = Some err"
  shows "patternFor (ts @ [t]) h =
     (if h = groupOf err
      then (patternFor ts h)\<lparr>occurrences := occurrences (patternFor ts h) + 1,
             affectedTests := affectedTests (patternFor ts h) @ [fullName t]\<rparr>
      else patternFor ts h)"
  by (simp add: patternFor_def namesOf_def groupedErrors_snoc_Some [OF assms])

lemma patternFor_new:
  assumes "error t = Some err" and "groupOf err \<notin> set (map fst (groupedErrors ts))"
  shows "patternFor (ts @ [t]) (groupOf err) =
     \<lparr>pattern = extractPattern err,
      description = getPatternDescription (categorizeFailure err) (extractPattern err),
      occurrences = 1,
      affectedTests = [fullName t],
      severity = calculateSeverity (categorizeFailure err),
      category = categorizeFailure err,
      suggestedFix = getSuggestedFix (categorizeFailure err) (extractPattern err)\<rparr>"
proof -
  have "filter (\<lambda>x. fst x = groupOf err) (groupedErrors ts) = []"
    using assms(2) by (force simp: filter_empty_conv)
  then show ?thesis
    by (simp add: patternFor_def namesOf_def groupedErrors_snoc_Some [OF assms(1)] groupOf_def)
qed

lemma patterns_keyed:
  "foldl addToPatterns [] ts =
     map (\<lambda>g. (groupKey g, patternFor ts g)) (firstSeen (map fst (groupedErrors ts)))"
proof (induction ts rule: rev_induct)
  case Nil
  show ?case by (simp add: groupedErrors_def firstSeen_def)
next
  case (snoc t ts)
  let ?gs = "firstSeen (map fst (groupedErrors ts))"
  show ?case
  proof (cases "error t")
    case None
    have "patternFor (ts @ [t]) = patternFor ts"
      by (rule ext) (simp add: patternFor_def namesOf_def groupedErrors_snoc_None [OF None])
    with None snoc show ?thesis
      by (simp add: addToPatterns_def groupedErrors_snoc_None)
  next
    case (Some err)
    let ?g = "groupOf err"
    have key: "patternKey (categorizeFailure err) (extractPattern err) = groupKey ?g"
      by (simp add: groupKey_def groupOf_def)
    show ?thesis
    proof (cases "?g \<in> set ?gs")
      case True
      have "addToPatterns (foldl addToPatterns [] ts) t =
          updateEntry (groupKey ?g)
            (\<lambda>existing. existing\<lparr>occurrences := occurrences existing + 1,
                 affectedTests := affectedTests existing @ [fullName t]\<rparr>)
            (map (\<lambda>g. (groupKey g, patternFor ts g)) ?gs)"
      proof -
        have "map_of (map (\<lambda>g. (groupKey g, patternFor ts g)) ?gs) (groupKey ?g) \<noteq> None"
          using True by (simp only: map_of_keyed)
        then show ?thesis
          by (simp add: addToPatterns_def Some Let_def key snoc)
      qed
      also have "\<dots> = map (\<lambda>g. (groupKey g, patternFor (ts @ [t]) g)) ?gs"
        by (simp add: updateEntry_keyed distinct_firstSeen patternFor_snoc [OF Some])
      finally show ?thesis
        using True
        by (simp add: groupedErrors_snoc_Some [OF Some] firstSeen_snoc set_firstSeen)
    next
      case False
      then have new: "?g \<notin> set (map fst (groupedErrors ts))"
        by (simp add: set_firstSeen)
      have old: "map (\<lambda>g. (groupKey g, patternFor (ts @ [t]) g)) ?gs
          = map (\<lambda>g. (groupKey g, patternFor ts g)) ?gs"
        using False by (intro map_cong) (auto simp: patternFor_snoc [OF Some])
      have "addToPatterns (foldl addToPatterns [] ts) t =
          map (\<lambda>g. (groupKey g, patternFor ts g)) ?gs @ [(groupKey ?g, patternFor (ts @ [t]) ?g)]"
      proof -
        have "map_of (map (\<lambda>g. (groupKey g, patternFor ts g)) ?gs) (groupKey ?g) = None"
          using False map_of_keyed [of "patternFor ts" ?gs ?g] by blast
        then show ?thesis
          by (simp add: addToPatterns_def Some Let_def key snoc patternFor_new [OF Some new])
      qed
      then show ?thesis
        using new
        by (simp add: groupedErrors_snoc_Some [OF Some] firstSeen_snoc old)
    qed
  qed
qed

lemma analyzeFailures_is_spec: "analyzeFailures ts = analyzeFailures_spec ts"
  by (simp add: analyzeFailures_def analyzeFailures_spec_def patterns_keyed comp_def)

text \<open>
  C4. \<open>analyzeFailures\<close> returns one pattern record for each pair (category, pattern) that
  occurs among the tests with an error: its \<open>occurrences\<close> is the number of those tests
  with that pair and its \<open>affectedTests\<close> their full names in the order of the tests. The
  result holds these records in descending order of \<open>occurrences\<close>, and records with the
  same count stand in the order in which their pairs were first seen.
\<close>

theorem C4_analyzeFailures_grouped_sorted:
  "analyzeFailures ts
     = sortDescBy occurrences (map (patternFor ts) (firstSeen (map fst (groupedErrors ts))))
   \<and> mset (analyzeFailures ts)
       = mset (map (patternFor ts) (firstSeen (map fst (groupedErrors ts))))
   \<and> sorted_wrt (\<lambda>p q. occurrences p \<ge> occurrences q) (analyzeFailures ts)
   \<and> (\<forall>k. filter (\<lambda>p. occurrences p = k) (analyzeFailures ts)
          = filter (\<lambda>p. occurrences p = k)
              (map (patternFor ts) (firstSeen (map fst (groupedErrors ts)))))
   \<and> (\<forall>g. category (patternFor ts g) = fst g \<and> pattern (patternFor ts g) = snd g
          \<and> affectedTests (patternFor ts g)
              = map snd (filter (\<lambda>x. fst x = g) (groupedErrors ts))
          \<and> occurrences (patternFor ts g)
              = length (filter (\<lambda>x. fst x = g) (groupedErrors ts)))
   \<and> distinct (firstSeen (map fst (groupedErrors ts)))
   \<and> set (firstSeen (map fst (groupedErrors ts))) = fst ` set (groupedErrors ts)"
proof -
  have spec: "analyzeFailures ts
      = sortDescBy occurrences (map (patternFor ts) (firstSeen (map fst (groupedErrors ts))))"
    using analyzeFailures_is_spec [of ts] by (simp add: analyzeFailures_spec_def)
  have rec: "\<forall>g. category (patternFor ts g) = fst g \<and> pattern (patternFor ts g) = snd g
          \<and> affectedTests (patternFor ts g)
              = map snd (filter (\<lambda>x. fst x = g) (groupedErrors ts))
          \<and> occurrences (patternFor ts g)
              = length (filter (\<lambda>x. fst x = g) (groupedErrors ts))"
    by (simp add: patternFor_def namesOf_def)
  show ?thesis
    using rec
    by (simp only: spec mset_sortDescBy sorted_sortDescBy stable_sortDescBy
        distinct_firstSeen set_firstSeen) simp
qed

theorem C4_analyzeFailures_grouped_sorted_witness:
  "map (\<lambda>p. (category p, pattern p, occurrences p, affectedTests p))
     (analyzeFailures
        [sampleTimeout, sampleFailed ''a'' ''net::ERR'', sampleNoError,
         sampleFailed ''b'' ''net::ERR'', sampleFailed ''c'' ''login failed''])
     = [(Network, ''net::ERR'', 2, [''Suite > a'', ''Suite > b'']),
        (Timeout, ''Timeout 5000ms'', 1, [''Suite > t'']),
        (Authentication, ''login failed'', 1, [''Suite > c''])]
   \<and> sorted_wrt (\<lambda>p q. occurrences p \<ge> occurrences q)
       (analyzeFailures
          [sampleTimeout, sampleFailed ''a'' ''net::ERR'', sampleNoError,
           sampleFailed ''b'' ''net::ERR'', sampleFailed ''c'' ''login failed''])"
proof -
  let ?ts = "[sampleTimeout, sampleFailed ''a'' ''net::ERR'', sampleNoError,
         sampleFailed ''b'' ''net::ERR'', sampleFailed ''c'' ''login failed'']"
  have g: "groupedErrors ?ts =
      [((Timeout, ''Timeout 5000ms''), ''Suite > t''),
       ((Network, ''net::ERR''), ''Suite > a''),
       ((Network, ''net::ERR''), ''Suite > b''),
       ((Authentication, ''login failed''), ''Suite > c'')]"
    by (simp add: groupedErrors_def groupOf_def sampleTimeout_def timeoutError_def
        sampleFailed_def sampleNoError_def categorizeFailure_def extractPattern_def
        timeoutAt_def isDigit_def toLowerCase_def toLowerChar_def)
  have v: "map (\<lambda>p. (category p, pattern p, occurrences p, affectedTests p))
     (sortDescBy occurrences (map (patternFor ?ts) (firstSeen (map fst (groupedErrors ?ts)))))
     = [(Network, ''net::ERR'', 2, [''Suite > a'', ''Suite > b'']),
        (Timeout, ''Timeout 5000ms'', 1, [''Suite > t'']),
        (Authentication, ''login failed'', 1, [''Suite > c''])]"
    by (simp add: g firstSeen_def sortDescBy_def patternFor_def namesOf_def)
  note c4 = C4_analyzeFailures_grouped_sorted [of ?ts]
  have eq: "analyzeFailures ?ts
      = sortDescBy occurrences (map (patternFor ?ts) (firstSeen (map fst (groupedErrors ?ts))))"
    by (rule c4 [THEN conjunct1])
  have srt: "sorted_wrt (\<lambda>p q. occurrences p \<ge> occurrences q) (analyzeFailures ?ts)"
    by (rule c4 [THEN conjunct2, THEN conjunct2, THEN conjunct1])
  from v have "map (\<lambda>p. (category p, pattern p, occurrences p, affectedTests p))
     (analyzeFailures ?ts)
     = [(Network, ''net::ERR'', 2, [''Suite > a'', ''Suite > b'']),
        (Timeout, ''Timeout 5000ms'', 1, [''Suite > t'']),
        (Authentication, ''login failed'', 1, [''Suite > c''])]"
    by (simp only: eq)
  with srt show ?thesis by (rule conjI [rotated])
qed

section \<open>Properties of the metrics collector\<close>

lemma metrics_recordFailure: "metrics (recordFailure c r now) = metrics c"
  by (simp add: recordFailure_def Let_def split: option.splits)

lemma testResults_recordFailure: "testResults (recordFailure c r now) = testResults c"
  by (simp add: recordFailure_def Let_def split: option.splits)

lemma total_recordTest: "total (metrics (recordTest c r now)) = Suc (total (metrics c))"
  by (cases "status r")
    (simp_all add: recordTest_def updatePerformanceMetrics_def Let_def metrics_recordFailure)

lemma passed_recordTest:
  "passed (metrics (recordTest c r now)) = passed (metrics c) + (if status r = Passed then 1 else 0)"
  by (cases "status r")
    (simp_all add: recordTest_def updatePerformanceMetrics_def Let_def metrics_recordFailure)

lemma failed_recordTest:
  "failed (metrics (recordTest c r now)) = failed (metrics c) + (if status r = Failed then 1 else 0)"
  by (cases "status r")
    (simp_all add: recordTest_def updatePerformanceMetrics_def Let_def metrics_recordFailure)

lemma skipped_recordTest:
  "skipped (metrics (recordTest c r now)) = skipped (metrics c) + (if status r = Skipped then 1 else 0)"
  by (cases "status r")
    (simp_all add: recordTest_def updatePerformanceMetrics_def Let_def metrics_recordFailure)

lemma flaky_recordTest:
  "flaky (metrics (recordTest c r now)) = flaky (metrics c) + (if status r = Flaky then 1 else 0)"
  by (cases "status r")
    (simp_all add: recordTest_def updatePerformanceMetrics_def Let_def metrics_recordFailure)

lemma counts_ok_recordTest:
  "counts_ok (metrics c) \<Longrightarrow> counts_ok (metrics (recordTest c r now))"
  by (cases "status r")
    (simp_all add: counts_ok_def total_recordTest passed_recordTest failed_recordTest
      skipped_recordTest flaky_recordTest)

lemma recordAll_Nil: "recordAll c [] = c"
  by (simp add: recordAll_def calls_def)

lemma recordAll_snoc: "recordAll c (rs @ [(r, now)]) = recordTest (recordAll c rs) r now"
  by (simp add: recordAll_def calls_def)

lemma counts_ok_recordAll: "counts_ok (metrics c) \<Longrightarrow> counts_ok (metrics (recordAll c rs))"
proof (induction rs rule: rev_induct)
  case Nil
  then show ?case by (simp add: recordAll_Nil)
next
  case (snoc x rs)
  obtain r now where x: "x = (r, now)" by (cases x)
  from snoc show ?case by (simp add: x recordAll_snoc counts_ok_recordTest)
qed

lemma counts_ok_started: "counts_ok (metrics (start (newCollector b e t0) t1))"
  by (simp add: counts_ok_def start_def newCollector_def emptyMetrics_def)

text \<open>
  C2. A collector is created and started, and any sequence of results is recorded, each at
  its own time. After the whole sequence, and after each of its calls (the first \<open>n\<close> of
  them, for every \<open>n\<close>), \<open>total = passed + failed + skipped + flaky\<close>.
\<close>

theorem C2_counts_invariant:
  "counts_ok (metrics (recordAll (start (newCollector b e t0) t1) rs))
   \<and> counts_ok (metrics (recordAll (start (newCollector b e t0) t1) (take n rs)))"
  by (simp add: counts_ok_recordAll counts_ok_started)

lemma refs_recordFailure:
  "metricsRef (recordFailure c r now) = metricsRef c \<and> nextRef (recordFailure c r now) = nextRef c"
  by (simp add: recordFailure_def Let_def split: option.splits)

lemma ref_below_call: "metricsRef c < nextRef c \<Longrightarrow> metricsRef (call c x) < nextRef (call c x)"
  by (cases x)
    (simp_all add: start_def finish_def getMetrics_def reset_def Let_def
      recordTest_def updatePerformanceMetrics_def refs_recordFailure split: Status.splits)

lemma ref_below_calls:
  "metricsRef c < nextRef c \<Longrightarrow> metricsRef (calls c cs) < nextRef (calls c cs)"
  unfolding calls_def
  by (induction cs arbitrary: c) (simp_all add: ref_below_call)

lemma ref_below_new:
  "metricsRef (calls (newCollector b e t0) cs) < nextRef (calls (newCollector b e t0) cs)"
  by (rule ref_below_calls) (simp add: newCollector_def)

lemma calls_getMetrics_only:
  "calls c (replicate k GetMetrics) = c\<lparr>nextRef := nextRef c + k\<rparr>"
  unfolding calls_def
  by (induction k arbitrary: c) (simp_all add: getMetrics_def)

text \<open>
  C8, as stated, fails: \<open>finish\<close> is not a \<open>recordTest\<close>, and between two \<open>getMetrics\<close>
  calls on a new collector it sets \<open>endTime\<close>, so the two returned objects differ.
\<close>

theorem C8_intervening_finish_counterexample:
  "\<not> list_ex isRecordTest [Finish 5]
   \<and> snd (fst (getMetrics (calls (snd (getMetrics (newCollector ''chromium'' ''dev'' 0))) [Finish 5])))
       \<noteq> snd (fst (getMetrics (newCollector ''chromium'' ''dev'' 0)))"
  by (simp add: calls_def getMetrics_def newCollector_def emptyMetrics_def finish_def
      sortDescBy_def)

text \<open>
  C8, amended. Two \<open>getMetrics\<close> calls with nothing but further \<open>getMetrics\<close> calls between
  them (no \<open>start\<close>, \<open>recordTest\<close>, \<open>finish\<close> or \<open>reset\<close>) return objects with the same
  fields, those of the collector's own metrics object, under two different references; and
  on a collector reached from its construction by any calls, neither reference is that of
  the collector's own metrics object.
\<close>

theorem C8_getMetrics_copies:
  "snd (fst (getMetrics (calls (snd (getMetrics c)) (replicate k GetMetrics))))
     = snd (fst (getMetrics c))
   \<and> snd (fst (getMetrics c)) = metrics c
   \<and> fst (fst (getMetrics (calls (snd (getMetrics c)) (replicate k GetMetrics))))
       \<noteq> fst (fst (getMetrics c))
   \<and> fst (fst (getMetrics (calls (newCollector b e t0) cs)))
       \<noteq> metricsRef (calls (newCollector b e t0) cs)
   \<and> fst (fst (getMetrics
         (calls (snd (getMetrics (calls (newCollector b e t0) cs))) (replicate k GetMetrics))))
       \<noteq> metricsRef (calls (newCollector b e t0) cs)"
  using ref_below_new [of b e t0 cs]
  by (simp add: calls_getMetrics_only getMetrics_def)

lemma browser_call: "browser (metrics (call c x)) = browser (metrics c)"
  by (cases x)
    (simp_all add: start_def finish_def getMetrics_def reset_def emptyMetrics_def Let_def
      recordTest_def updatePerformanceMetrics_def metrics_recordFailure split: Status.splits)

lemma environment_call: "environment (metrics (call c x)) = environment (metrics c)"
  by (cases x)
    (simp_all add: start_def finish_def getMetrics_def reset_def emptyMetrics_def Let_def
      recordTest_def updatePerformanceMetrics_def metrics_recordFailure split: Status.splits)

lemma labels_calls:
  "browser (metrics (calls c cs)) = browser (metrics c)
   \<and> environment (metrics (calls c cs)) = environment (metrics c)"
  unfolding calls_def
  by (induction cs arbitrary: c) (simp_all add: browser_call environment_call)

text \<open>
  C10. \<open>reset\<close> on any collector \<open>c\<close> leaves the five counters, the duration, the average
  and the failure rate at 0, \<open>topFailures\<close>, the recorded results and the failure index
  empty, \<open>endTime\<close>, \<open>slowestTest\<close> and \<open>fastestTest\<close> unset, the start time at the
  time of the call, and the two labels as they were. On a collector built with labels
  \<open>b\<close> and \<open>e\<close>, the labels are still \<open>b\<close> and \<open>e\<close> after any calls, so \<open>reset\<close> gives
  the metrics of a collector newly built with them.
\<close>

theorem C10_reset:
  "metrics (reset c now) =
       \<lparr>total = 0, passed = 0, failed = 0, skipped = 0, flaky = 0,
        m_startTime = now, m_endTime = None, m_duration = 0,
        averageTestDuration = 0, slowestTest = None, fastestTest = None,
        failureRate = 0, topFailures = [],
        browser = browser (metrics c), environment = environment (metrics c)\<rparr>
   \<and> testResults (reset c now) = []
   \<and> failures (reset c now) = []
   \<and> browser (metrics (calls (newCollector b e t0) cs)) = b
   \<and> environment (metrics (calls (newCollector b e t0) cs)) = e
   \<and> metrics (reset (calls (newCollector b e t0) cs) now) = metrics (newCollector b e now)"
  by (simp add: reset_def labels_calls newCollector_def emptyMetrics_def)




lemma failures_recordTest:
  "failures (recordTest c r now) = (if status r = Failed then failures (recordFailure c r now) else failures c)"
  by (cases "status r") (simp_all add: recordTest_def updatePerformanceMetrics_def Let_def recordFailure_def split: option.splits)

lemma testResults_recordTest: "testResults (recordTest c r now) = testResults c @ [r]"
  by (cases "status r") (simp_all add: recordTest_def updatePerformanceMetrics_def Let_def testResults_recordFailure)






lemma failures_recordFailure_cong:
  "failures c = failures d \<Longrightarrow> failures (recordFailure c r now) = failures (recordFailure d r now)"
  by (simp add: recordFailure_def Let_def split: option.splits)

lemma topFailures_recordTest: "topFailures (metrics (recordTest c r now)) = topFailures (metrics c)"
  by (cases "status r")
    (simp_all add: recordTest_def updatePerformanceMetrics_def Let_def metrics_recordFailure)

lemma same_index_call: "same_index c d \<Longrightarrow> same_index (call c x) (call d x)"
proof (cases x)
  case (RecordTest r now)
  assume "same_index c d"
  then show ?thesis
    using failures_recordFailure_cong [of c d r now]
    by (simp add: RecordTest same_index_def failures_recordTest topFailures_recordTest)
qed (simp_all add: same_index_def start_def finish_def getMetrics_def reset_def emptyMetrics_def Let_def)

lemma same_index_calls: "same_index c d \<Longrightarrow> same_index (calls c cs) (calls d cs)"
  unfolding calls_def
  by (induction cs arbitrary: c d) (simp_all add: same_index_call)

lemma recordFailure_no_error: "error r = None \<Longrightarrow> recordFailure c r now = c"
  by (simp add: recordFailure_def)

lemma addToPatterns_no_error: "error r = None \<Longrightarrow> addToPatterns ps r = ps"
  by (simp add: addToPatterns_def)

lemma analyzeFailures_skip: "error r = None \<Longrightarrow> analyzeFailures (xs @ r # ys) = analyzeFailures (xs @ ys)"
  by (simp add: analyzeFailures_def addToPatterns_no_error)

text \<open>
  C6. Recording a failed result \<open>r\<close> that has no error adds one to \<open>failed\<close> and to
  \<open>total\<close> and leaves the failure index as it was. Whatever calls follow, the failure
  index and \<open>topFailures\<close> are what they would be had \<open>r\<close> not been recorded, so
  \<open>r\<close> contributes to no entry of \<open>topFailures\<close>. \<open>analyzeFailures\<close> returns, for a
  list that holds \<open>r\<close>, the patterns of the list without \<open>r\<close>.
\<close>

theorem C6_failed_without_error:
  assumes "status r = Failed" and "error r = None"
  shows "failed (metrics (recordTest c r now)) = failed (metrics c) + 1
    \<and> total (metrics (recordTest c r now)) = total (metrics c) + 1
    \<and> failures (recordTest c r now) = failures c
    \<and> failures (calls (recordTest c r now) cs) = failures (calls c cs)
    \<and> topFailures (metrics (calls (recordTest c r now) cs)) = topFailures (metrics (calls c cs))
    \<and> analyzeFailures (xs @ r # ys) = analyzeFailures (xs @ ys)"
proof -
  have idx: "failures (recordTest c r now) = failures c"
    using assms by (simp add: failures_recordTest recordFailure_no_error)
  then have "same_index (recordTest c r now) c"
    by (simp add: same_index_def topFailures_recordTest)
  then have "same_index (calls (recordTest c r now) cs) (calls c cs)"
    by (rule same_index_calls)
  then show ?thesis
    using assms idx
    by (simp add: same_index_def failed_recordTest total_recordTest analyzeFailures_skip)
qed


theorem C6_failed_without_error_witness:
  "failed (metrics (recordTest (newCollector ''chromium'' ''dev'' 0) sampleNoError 1)) = 1
   \<and> total (metrics (recordTest (newCollector ''chromium'' ''dev'' 0) sampleNoError 1)) = 1
   \<and> failures (recordTest (newCollector ''chromium'' ''dev'' 0) sampleNoError 1) = []
   \<and> topFailures (metrics
         (calls (recordTest (newCollector ''chromium'' ''dev'' 0) sampleNoError 1) [Finish 9])) = []
   \<and> analyzeFailures ([] @ sampleNoError # []) = []"
proof -
  have s: "status sampleNoError = Failed" and e: "error sampleNoError = None"
    by (simp_all add: sampleNoError_def)
  have base: "failed (metrics (newCollector ''chromium'' ''dev'' 0)) = 0
      \<and> total (metrics (newCollector ''chromium'' ''dev'' 0)) = 0
      \<and> failures (newCollector ''chromium'' ''dev'' 0) = []
      \<and> topFailures (metrics (calls (newCollector ''chromium'' ''dev'' 0) [Finish 9])) = []
      \<and> analyzeFailures ([] @ []) = []"
    by (simp add: newCollector_def emptyMetrics_def calls_def finish_def analyzeFailures_def
        sortDescBy_def)
  from C6_failed_without_error [OF s e, of "newCollector ''chromium'' ''dev'' 0" 1 "[Finish 9]" "[]" "[]"]
    base
  show ?thesis by simp
qed

lemma testResults_recordAll: "testResults (recordAll c rs) = testResults c @ map fst rs"
proof (induction rs rule: rev_induct)
  case Nil
  show ?case by (simp add: recordAll_Nil)
next
  case (snoc x rs)
  obtain r now where x: "x = (r, now)" by (cases x)
  from snoc show ?case by (simp add: x recordAll_snoc testResults_recordTest)
qed

lemma counters_recordAll:
  "total (metrics (recordAll c rs)) = total (metrics c) + length rs
   \<and> passed (metrics (recordAll c rs))
       = passed (metrics c) + length (filter (\<lambda>r. status r = Passed) (map fst rs))
   \<and> failed (metrics (recordAll c rs))
       = failed (metrics c) + length (filter (\<lambda>r. status r = Failed) (map fst rs))"
proof (induction rs rule: rev_induct)
  case Nil
  show ?case by (simp add: recordAll_Nil)
next
  case (snoc x rs)
  obtain r now where x: "x = (r, now)" by (cases x)
  from snoc show ?case
    by (simp add: x recordAll_snoc total_recordTest passed_recordTest failed_recordTest)
qed

lemma foldl_durations: "foldl (\<lambda>sum t. sum + duration t) a xs = a + sum_list (map duration xs)"
  by (induction xs arbitrary: a) (simp_all add: add.assoc)

lemma average_recordTest:
  "averageTestDuration (metrics (recordTest c r now))
     = sum_list (map duration (testResults c @ [r])) / of_nat (length (testResults c @ [r]))"
  by (cases "status r")
    (simp_all add: recordTest_def updatePerformanceMetrics_def Let_def foldl_durations
      testResults_recordFailure)

lemma average_recordAll:
  assumes "rs \<noteq> []"
  shows "averageTestDuration (metrics (recordAll c rs))
     = sum_list (map duration (testResults c @ map fst rs))
         / of_nat (length (testResults c @ map fst rs))"
proof -
  obtain ys y where rs: "rs = ys @ [y]"
    using assms by (cases rs rule: rev_cases) auto
  obtain r now where y: "y = (r, now)" by (cases y)
  show ?thesis
    by (simp only: rs y recordAll_snoc average_recordTest testResults_recordAll)
      simp
qed

lemma mset_single_list: "mset ys = {#y#} \<Longrightarrow> ys = [y]"
  by (cases ys) (auto split: if_splits)

lemma timeout_5000_category:
  assumes "message err = ''Timeout 5000ms exceeded''" and "etype err = ''TimeoutError''"
  shows "categorizeFailure err = Timeout"
  by (simp add: categorizeFailure_def assms toLowerCase_def toLowerChar_def)

lemma timeout_5000_pattern:
  assumes "message err = ''Timeout 5000ms exceeded''"
  shows "extractPattern err = ''Timeout 5000ms''"
  by (simp add: extractPattern_def assms timeoutAt_def isDigit_def)

lemma analyze_single_timeout:
  assumes "error f = Some err"
    and "message err = ''Timeout 5000ms exceeded''" and "etype err = ''TimeoutError''"
  shows "analyzeFailures [f] =
     [\<lparr>pattern = ''Timeout 5000ms'',
       description = ''Test exceeded the maximum execution time'',
       occurrences = 1,
       affectedTests = [fullName f],
       severity = Medium,
       category = Timeout,
       suggestedFix = Some ''Increase timeout value or optimize test performance. Check for slow network or page loads.''\<rparr>]"
  by (simp add: analyzeFailures_def addToPatterns_def assms(1) Let_def sortDescBy_def
      timeout_5000_category [OF assms(2,3)] timeout_5000_pattern [OF assms(2)])

lemma finish_counters:
  "total (metrics (finish c now)) = total (metrics c)
   \<and> passed (metrics (finish c now)) = passed (metrics c)
   \<and> failed (metrics (finish c now)) = failed (metrics c)
   \<and> averageTestDuration (metrics (finish c now)) = averageTestDuration (metrics c)
   \<and> testResults (finish c now) = testResults c"
  by (simp add: finish_def Let_def)

lemma finish_failureRate:
  "0 < total (metrics c) \<Longrightarrow>
   failureRate (metrics (finish c now)) = of_nat (failed (metrics c)) / of_nat (total (metrics c)) * 100"
  by (simp add: finish_def Let_def)

lemma started_empty:
  "total (metrics (start (newCollector b e t0) t1)) = 0
   \<and> passed (metrics (start (newCollector b e t0) t1)) = 0
   \<and> failed (metrics (start (newCollector b e t0) t1)) = 0
   \<and> testResults (start (newCollector b e t0) t1) = []"
  by (simp add: start_def newCollector_def emptyMetrics_def)

text \<open>
  C3. Scenario A. Three passed results of durations 100, 200 and 300 and one failed result
  whose error has message \<open>Timeout 5000ms exceeded\<close> and type \<open>TimeoutError\<close> are
  recorded, in any order and at any times, on a started collector, which is then finished.
  Then \<open>total = 4\<close>, \<open>passed = 3\<close>, \<open>failed = 1\<close>, the average duration is the mean of
  the four durations, \<open>failureRate = 25\<close>, and the analyzer, given the collector's failed
  tests, yields exactly one pattern: category timeout, pattern \<open>Timeout 5000ms\<close>, one
  occurrence, severity medium.
\<close>

theorem C3_scenario_A:
  assumes p1: "status p1 = Passed" "duration p1 = 100"
    and p2: "status p2 = Passed" "duration p2 = 200"
    and p3: "status p3 = Passed" "duration p3 = 300"
    and f: "status f = Failed" "error f = Some err"
    and err: "message err = ''Timeout 5000ms exceeded''" "etype err = ''TimeoutError''"
    and rs: "mset (map fst rs) = {#p1, p2, p3, f#}"
    and c: "c = finish (recordAll (start (newCollector b e t0) t1) rs) t2"
  shows "total (metrics c) = 4 \<and> passed (metrics c) = 3 \<and> failed (metrics c) = 1
    \<and> averageTestDuration (metrics c) = (100 + 200 + 300 + duration f) / 4
    \<and> failureRate (metrics c) = 25
    \<and> analyzeFailures (getFailedTests c) =
        [\<lparr>pattern = ''Timeout 5000ms'',
          description = ''Test exceeded the maximum execution time'',
          occurrences = 1,
          affectedTests = [fullName f],
          severity = Medium,
          category = Timeout,
          suggestedFix = Some ''Increase timeout value or optimize test performance. Check for slow network or page loads.''\<rparr>]"
proof -
  let ?s = "start (newCollector b e t0) t1"
  define xs where "xs = map fst rs"
  have xs: "mset xs = {#p1, p2, p3, f#}"
    by (simp only: xs_def rs)
  have size_len: "\<And>ys :: TestResult list. length ys = size (mset ys)"
    by simp
  have len_xs: "length xs = 4"
    by (simp only: size_len xs) simp
  have len: "length rs = 4"
    using len_xs by (simp add: xs_def)
  then have ne: "rs \<noteq> []" by auto
  have npass: "length (filter (\<lambda>r. status r = Passed) xs) = 3"
    by (simp only: size_len mset_filter xs) (simp add: p1 p2 p3 f)
  have failedTests: "filter (\<lambda>r. status r = Failed) xs = [f]"
  proof -
    have "mset (filter (\<lambda>r. status r = Failed) xs) = {#f#}"
      by (simp only: mset_filter xs) (simp add: p1 p2 p3 f)
    then show ?thesis by (rule mset_single_list)
  qed
  have total: "sum_list (map duration xs) = 100 + 200 + 300 + duration f"
  proof -
    have "sum_list (map duration xs) = sum_mset (image_mset duration (mset xs))"
      by (simp only: sum_mset_sum_list [symmetric] mset_map)
    also have "\<dots> = 100 + 200 + 300 + duration f"
      by (simp only: xs) (simp add: p1 p2 p3)
    finally show ?thesis .
  qed
  have t: "total (metrics c) = 4" and p: "passed (metrics c) = 3" and fl: "failed (metrics c) = 1"
    using counters_recordAll [of ?s rs] started_empty [of b e t0 t1] len npass failedTests
    by (simp_all only: c finish_counters xs_def [symmetric]) simp_all
  have avg: "averageTestDuration (metrics c) = (100 + 200 + 300 + duration f) / 4"
    using average_recordAll [OF ne, of ?s] started_empty [of b e t0 t1] total len_xs
    by (simp only: c finish_counters xs_def [symmetric]) simp
  have rate: "failureRate (metrics c) = 25"
  proof -
    have "0 < total (metrics (recordAll ?s rs))"
      using counters_recordAll [of ?s rs] len by simp
    from finish_failureRate [OF this, of t2] t p fl show ?thesis
      by (simp add: c finish_counters)
  qed
  have "getFailedTests c = [f]"
    using started_empty [of b e t0 t1] failedTests
    by (simp only: getFailedTests_def c finish_counters testResults_recordAll xs_def [symmetric])
      simp
  then have "analyzeFailures (getFailedTests c) = analyzeFailures [f]" by simp
  with t p fl avg rate show ?thesis
    by (simp only: analyze_single_timeout [OF f(2) err])
qed

theorem C3_scenario_A_witness:
  "total (metrics (finish (recordAll (start (newCollector ''chromium'' ''dev'' 0) 1)
       [(samplePassed ''a'' 100, 2), (samplePassed ''b'' 200, 3), (sampleTimeout, 4),
        (samplePassed ''c'' 300, 5)]) 6)) = 4
   \<and> averageTestDuration (metrics (finish (recordAll (start (newCollector ''chromium'' ''dev'' 0) 1)
       [(samplePassed ''a'' 100, 2), (samplePassed ''b'' 200, 3), (sampleTimeout, 4),
        (samplePassed ''c'' 300, 5)]) 6)) = 1400
   \<and> failureRate (metrics (finish (recordAll (start (newCollector ''chromium'' ''dev'' 0) 1)
       [(samplePassed ''a'' 100, 2), (samplePassed ''b'' 200, 3), (sampleTimeout, 4),
        (samplePassed ''c'' 300, 5)]) 6)) = 25
   \<and> map pattern (analyzeFailures (getFailedTests
       (finish (recordAll (start (newCollector ''chromium'' ''dev'' 0) 1)
       [(samplePassed ''a'' 100, 2), (samplePassed ''b'' 200, 3), (sampleTimeout, 4),
        (samplePassed ''c'' 300, 5)]) 6))) = [''Timeout 5000ms'']"
proof -
  let ?rs = "[(samplePassed ''a'' 100, 2), (samplePassed ''b'' 200, 3), (sampleTimeout, 4),
        (samplePassed ''c'' 300, 5)]"
  have m: "mset (map fst ?rs)
      = {#samplePassed ''a'' 100, samplePassed ''b'' 200, samplePassed ''c'' 300, sampleTimeout#}"
    by simp
  have d: "duration sampleTimeout = 5000"
    by (simp add: sampleTimeout_def)
  from C3_scenario_A [of "samplePassed ''a'' 100" "samplePassed ''b'' 200" "samplePassed ''c'' 300"
      sampleTimeout timeoutError ?rs _ "''chromium''" "''dev''" 0 1 6, OF _ _ _ _ _ _ _ _ _ _ m refl]
  show ?thesis
    by (simp add: samplePassed_def sampleTimeout_def timeoutError_def)
qed

lemma bitlen_pos: "0 < n \<Longrightarrow> 1 \<le> bitlen n"
  using bitlen_bounds [of n] bitlen_nonneg [of n]
  by (cases "bitlen n = 0") auto

lemma binade_ge_one:
  assumes "1 \<le> x"
  shows "2 powi binade x \<le> x \<and> x < 2 powi (binade x + 1)"
proof -
  let ?n = "\<lfloor>x\<rfloor>"
  have n: "0 < ?n" using assms by simp
  let ?k = "bitlen ?n - 1"
  have k: "0 \<le> ?k" using bitlen_pos [OF n] by simp
  have b: "binade x = ?k" using assms by (simp add: binade_def)
  from bitlen_bounds [OF n] have lo: "2 ^ nat ?k \<le> ?n" and hi: "?n < 2 ^ nat (bitlen ?n)"
    by simp_all
  have "(2::rat) powi ?k = of_int (2 ^ nat ?k)"
    using k by (simp add: power_int_nonneg_exp)
  also have "\<dots> \<le> of_int ?n" using lo by (simp only: of_int_le_iff)
  also have "\<dots> \<le> x" by simp
  finally have low: "2 powi binade x \<le> x" by (simp only: b)
  have "?n + 1 \<le> 2 ^ nat (bitlen ?n)" using hi by simp
  then have "(of_int (?n + 1) :: rat) \<le> of_int (2 ^ nat (bitlen ?n))"
    by (simp only: of_int_le_iff)
  moreover have "x < of_int (?n + 1)" by linarith
  ultimately have "x < of_int (2 ^ nat (bitlen ?n))" by linarith
  also have "\<dots> = 2 powi (?k + 1)"
    using k by (simp add: power_int_nonneg_exp)
  finally have "x < 2 powi (binade x + 1)" by (simp only: b)
  with low show ?thesis by simp
qed

lemma binade_lt_one:
  assumes "0 < x" and "x < 1"
  shows "2 powi binade x \<le> x \<and> x < 2 powi (binade x + 1)"
proof -
  let ?y = "1 / x"
  let ?m = "\<lceil>?y\<rceil>"
  have y: "1 < ?y" using assms by simp
  then have m: "0 < ?m - 1" by linarith
  let ?j = "bitlen (?m - 1)"
  have j: "1 \<le> ?j" by (rule bitlen_pos [OF m])
  have b: "binade x = - ?j" using assms by (simp add: binade_def)
  from bitlen_bounds [OF m] have lo: "2 ^ nat (?j - 1) \<le> ?m - 1" and hi: "?m - 1 < 2 ^ nat ?j"
    by simp_all
  have "?y \<le> of_int ?m" by simp
  also have "\<dots> \<le> of_int (2 ^ nat ?j)"
    using hi by (simp only: of_int_le_iff)
  finally have yhi: "?y \<le> 2 ^ nat ?j" by simp
  have "(of_int (2 ^ nat (?j - 1)) :: rat) \<le> of_int (?m - 1)"
    using lo by (simp only: of_int_le_iff)
  moreover have "of_int (?m - 1) < ?y" by linarith
  ultimately have ylo: "2 ^ nat (?j - 1) < ?y" by simp
  have p1: "(2::rat) powi (- ?j) = 1 / 2 ^ nat ?j"
    using j by (simp add: power_int_minus_divide power_int_nonneg_exp)
  have p2: "(2::rat) powi (- ?j + 1) = 1 / 2 ^ nat (?j - 1)"
  proof -
    have "- ?j + 1 = - (?j - 1)" by simp
    then have "(2::rat) powi (- ?j + 1) = 2 powi (- (?j - 1))" by simp
    also have "\<dots> = 1 / 2 ^ nat (?j - 1)"
      using j by (simp only: power_int_minus_divide) (simp add: power_int_nonneg_exp)
    finally show ?thesis .
  qed
  have "1 / 2 ^ nat ?j \<le> x"
    using yhi assms(1) by (simp add: field_simps)
  moreover have "x < 1 / 2 ^ nat (?j - 1)"
    using ylo assms(1) by (simp add: field_simps)
  ultimately show ?thesis by (simp only: b p1 p2)
qed

lemma binade_bounds:
  "0 < x \<Longrightarrow> 2 powi binade x \<le> x \<and> x < 2 powi (binade x + 1)"
  using binade_ge_one [of x] binade_lt_one [of x] by (cases "1 \<le> x") simp_all

lemma roundHalfEven_error: "\<bar>of_int (roundHalfEven y) - y\<bar> \<le> 1 / 2"
proof -
  have "of_int \<lfloor>y\<rfloor> \<le> y" and "y < of_int \<lfloor>y\<rfloor> + 1" by linarith+
  then show ?thesis
    by (auto simp: roundHalfEven_def Let_def)
qed


lemma toDouble_error:
  assumes "2 powi (- 1022) \<le> x"
  shows "\<bar>toDouble x - x\<bar> \<le> x / 2 ^ 53"
proof -
  have pos: "0 < x"
  proof -
    have "(0::rat) < 2 powi (- 1022)" by simp
    with assms show ?thesis by linarith
  qed
  let ?b = "binade x"
  from binade_bounds [OF pos] have lo: "2 powi ?b \<le> x" and hi: "x < 2 powi (?b + 1)"
    by simp_all
  have b: "- 1022 \<le> ?b"
  proof (rule ccontr)
    assume "\<not> - 1022 \<le> ?b"
    then have "?b + 1 \<le> - 1022" by simp
    then have "(2::rat) powi (?b + 1) \<le> 2 powi (- 1022)"
      by (rule power_int_increasing) simp
    with hi assms show False by linarith
  qed
  let ?q = "(2::rat) powi (?b - 52)"
  have q: "0 < ?q" by simp
  have q52: "?q * 2 ^ 52 = 2 powi ?b"
  proof -
    have "(2::rat) powi ?b = 2 powi ((?b - 52) + 52)" by simp
    also have "\<dots> = ?q * 2 powi 52" by (rule power_int_add) simp
    finally show ?thesis by simp
  qed
  let ?n = "roundHalfEven (x / ?q)"
  have td: "toDouble x = of_int ?n * ?q"
    using pos b by (simp add: toDouble_def Let_def max_def)
  have "\<bar>of_int ?n * ?q - x\<bar> = \<bar>of_int ?n - x / ?q\<bar> * ?q"
  proof -
    have "of_int ?n * ?q - x = (of_int ?n - x / ?q) * ?q"
      using q by (simp add: field_simps)
    then show ?thesis using q by (simp add: abs_mult)
  qed
  also have "\<dots> \<le> (1 / 2) * ?q"
    using roundHalfEven_error [of "x / ?q"] q by (intro mult_right_mono) simp_all
  also have "\<dots> = 2 powi ?b / 2 ^ 53"
    using q52 [symmetric] by simp
  also have "\<dots> \<le> x / 2 ^ 53"
    using lo by (simp add: divide_right_mono)
  finally show ?thesis by (simp only: td)
qed

lemma toDouble_zero: "toDouble 0 = 0"
  by (simp add: toDouble_def)

lemma tiny_le: "2 powi (- 1022) \<le> (1 / 2 ^ 54 :: rat)"
proof -
  have "(2::rat) powi (- 1022) \<le> 2 powi (- 54)"
    by (rule power_int_increasing) simp_all
  then show ?thesis by (simp add: power_int_minus_divide)
qed

lemma passRate_error:
  fixes p t :: nat
  assumes "0 < t" and "t < 2 ^ 53"
  shows "\<bar>toDouble (toDouble (of_nat p / of_nat t) * 100) - of_nat p / of_nat t * 100\<bar>
      \<le> of_nat p / of_nat t * 100 * (1 / 2 ^ 52 + 1 / 2 ^ 106)"
proof (cases "p = 0")
  case True
  then show ?thesis by (simp add: toDouble_zero)
next
  case False
  define x :: rat where "x = of_nat p / of_nat t"
  define u :: rat where "u = 1 / 2 ^ 53"
  have u: "0 < u" "u \<le> 1 / 2" by (simp_all add: u_def)
  have t: "(0::rat) < of_nat t" using assms(1) by simp
  have t53: "(of_nat t :: rat) < 2 ^ 53"
  proof -
    have "(of_nat t :: rat) < of_nat (2 ^ 53)"
      using assms(2) by (simp only: of_nat_less_iff)
    then show ?thesis by simp
  qed
  have p1: "(1::rat) \<le> of_nat p" using False by simp
  have "u < 1 / (of_nat t :: rat)"
    unfolding u_def using t t53 by (intro divide_strict_left_mono) simp_all
  also have "\<dots> \<le> x"
    unfolding x_def using p1 t by (intro divide_right_mono) simp_all
  finally have xu: "u < x" .
  with u have xpos: "0 < x" by linarith
  have tiny: "2 powi (- 1022) \<le> u / 2"
    using tiny_le by (simp add: u_def)
  have xnorm: "2 powi (- 1022) \<le> x"
    using tiny xu u by linarith
  define y where "y = toDouble x"
  from toDouble_error [OF xnorm] have ey: "\<bar>y - x\<bar> \<le> x * u"
    by (simp add: y_def u_def)
  then have ylo: "x - x * u \<le> y" and yhi: "y \<le> x + x * u"
    by (simp_all add: abs_le_iff)
  have "x * u \<le> x * (1 / 2)"
    using u xpos by (intro mult_left_mono) simp_all
  with ylo xu have yu: "u / 2 \<le> y" by simp
  with u have ypos: "0 \<le> y" by linarith
  have ynorm: "2 powi (- 1022) \<le> y * 100"
    using tiny yu ypos by linarith
  define z where "z = toDouble (y * 100)"
  from toDouble_error [OF ynorm] have ez: "\<bar>z - y * 100\<bar> \<le> y * 100 * u"
    by (simp add: z_def u_def)
  have yu2: "y * 100 * u \<le> (x + x * u) * 100 * u"
    using yhi u by (intro mult_right_mono) simp_all
  have split: "z - x * 100 = (z - y * 100) + (y - x) * 100"
    by (simp add: algebra_simps)
  have scaled: "\<bar>(y - x) * 100\<bar> = \<bar>y - x\<bar> * 100"
    by (simp only: abs_mult)
  have "\<bar>z - x * 100\<bar> \<le> \<bar>z - y * 100\<bar> + \<bar>y - x\<bar> * 100"
    using abs_triangle_ineq [of "z - y * 100" "(y - x) * 100"]
    by (simp only: split scaled)
  also have "\<dots> \<le> (x + x * u) * 100 * u + x * u * 100"
  proof (rule add_mono)
    show "\<bar>z - y * 100\<bar> \<le> (x + x * u) * 100 * u"
      using ez yu2 by (rule order_trans)
    show "\<bar>y - x\<bar> * 100 \<le> x * u * 100"
      using ey by (rule mult_right_mono) simp
  qed
  also have "\<dots> = x * 100 * (2 * u + u * u)"
    by (simp add: algebra_simps)
  also have "2 * u + u * u = 1 / 2 ^ 52 + 1 / 2 ^ 106"
    by (simp add: u_def)
  finally show ?thesis
    by (simp only: z_def y_def x_def)
qed

lemma toDouble_one_hundred: "toDouble 1 = 1 \<and> toDouble 100 = 100"
  by code_simp

lemma toDouble_seven_of_twenty_five:
  "toDouble (toDouble (7 / 25) * 100) = 7881299347898369 / 281474976710656"
  by code_simp

lemma sevenOfTwentyFive_counters:
  "total (metrics sevenOfTwentyFive) = 25 \<and> passed (metrics sevenOfTwentyFive) = 7"
  using counters_recordAll [of "start (newCollector ''chromium'' ''dev'' 0) 1"
      "replicate 7 (samplePassed ''a'' 100, 2) @ replicate 18 (sampleNoError, 3)"]
    started_empty [of "''chromium''" "''dev''" 0 1]
  by (simp add: sevenOfTwentyFive_def samplePassed_def sampleNoError_def)

text \<open>
  C7, as stated, fails. After 25 results of which 7 passed, \<open>passed / total * 100\<close> is
  exactly 28, and \<open>getPassRate\<close> returns the double next above 28, which JavaScript
  prints as \<open>28.000000000000004\<close>: the quotient 0.28 is not a double, and the product of
  its nearest double with 100 rounds up.
\<close>

theorem C7_rounding_counterexample:
  "passRate_exact_spec sevenOfTwentyFive = 28
   \<and> getPassRate sevenOfTwentyFive = 28 + 1 / 2 ^ 48"
proof -
  have "getPassRate sevenOfTwentyFive = toDouble (toDouble (7 / 25) * 100)"
    by (simp add: getPassRate_def sevenOfTwentyFive_counters)
  then have "getPassRate sevenOfTwentyFive = 28 + 1 / 2 ^ 48"
    by (simp only: toDouble_seven_of_twenty_five) simp
  moreover have "passRate_exact_spec sevenOfTwentyFive = 28"
    by (simp add: passRate_exact_spec_def sevenOfTwentyFive_counters)
  ultimately show ?thesis by simp
qed

text \<open>
  C7, amended. \<open>getPassRate\<close> returns 0 when \<open>total\<close> is 0, and otherwise the double that
  \<open>(passed / total) * 100\<close> evaluates to: the quotient rounded to the nearest double,
  multiplied by 100 and rounded again. That value is \<open>passed / total * 100\<close> up to the two
  roundings: it differs from it by at most the fraction \<open>2^-52 + 2^-106\<close> of it, for a
  \<open>total\<close> below \<open>2^53\<close>. It is exactly 0 when nothing passed and exactly 100 when
  everything did.
\<close>

theorem C7_getPassRate_binary64:
  "(total (metrics c) = 0 \<longrightarrow> getPassRate c = 0)
   \<and> (total (metrics c) \<noteq> 0 \<longrightarrow>
        getPassRate c
          = toDouble (toDouble (of_nat (passed (metrics c)) / of_nat (total (metrics c))) * 100))
   \<and> (0 < total (metrics c) \<and> total (metrics c) < 2 ^ 53 \<longrightarrow>
        \<bar>getPassRate c - of_nat (passed (metrics c)) / of_nat (total (metrics c)) * 100\<bar>
          \<le> of_nat (passed (metrics c)) / of_nat (total (metrics c)) * 100
              * (1 / 2 ^ 52 + 1 / 2 ^ 106))
   \<and> (passed (metrics c) = 0 \<longrightarrow> getPassRate c = 0)
   \<and> (0 < total (metrics c) \<and> passed (metrics c) = total (metrics c) \<longrightarrow> getPassRate c = 100)"
proof -
  have zero: "total (metrics c) = 0 \<longrightarrow> getPassRate c = 0"
    by (simp add: getPassRate_def)
  have val: "total (metrics c) \<noteq> 0 \<longrightarrow>
        getPassRate c
          = toDouble (toDouble (of_nat (passed (metrics c)) / of_nat (total (metrics c))) * 100)"
    by (simp add: getPassRate_def)
  have err: "0 < total (metrics c) \<and> total (metrics c) < 2 ^ 53 \<longrightarrow>
        \<bar>getPassRate c - of_nat (passed (metrics c)) / of_nat (total (metrics c)) * 100\<bar>
          \<le> of_nat (passed (metrics c)) / of_nat (total (metrics c)) * 100
              * (1 / 2 ^ 52 + 1 / 2 ^ 106)"
  proof
    assume t: "0 < total (metrics c) \<and> total (metrics c) < 2 ^ 53"
    then have "getPassRate c
        = toDouble (toDouble (of_nat (passed (metrics c)) / of_nat (total (metrics c))) * 100)"
      by (simp add: getPassRate_def)
    with passRate_error [of "total (metrics c)" "passed (metrics c)"] t
    show "\<bar>getPassRate c - of_nat (passed (metrics c)) / of_nat (total (metrics c)) * 100\<bar>
          \<le> of_nat (passed (metrics c)) / of_nat (total (metrics c)) * 100
              * (1 / 2 ^ 52 + 1 / 2 ^ 106)"
      by simp
  qed
  have none: "passed (metrics c) = 0 \<longrightarrow> getPassRate c = 0"
    by (simp add: getPassRate_def toDouble_zero)
  have all: "0 < total (metrics c) \<and> passed (metrics c) = total (metrics c) \<longrightarrow> getPassRate c = 100"
    by (simp add: getPassRate_def toDouble_one_hundred)
  from zero val err none all show ?thesis by blast
qed

theorem C7_getPassRate_binary64_witness:
  "getPassRate (newCollector ''chromium'' ''dev'' 0) = 0
   \<and> getPassRate sevenOfTwentyFive = 28 + 1 / 2 ^ 48
   \<and> \<bar>getPassRate sevenOfTwentyFive - 28\<bar> \<le> 28 * (1 / 2 ^ 52 + 1 / 2 ^ 106)"
proof -
  have new: "total (metrics (newCollector ''chromium'' ''dev'' 0)) = 0"
    by (simp add: newCollector_def emptyMetrics_def)
  have t: "total (metrics sevenOfTwentyFive) \<noteq> 0"
    and r: "0 < total (metrics sevenOfTwentyFive) \<and> total (metrics sevenOfTwentyFive) < 2 ^ 53"
    by (simp_all add: sevenOfTwentyFive_counters)
  note c7 = C7_getPassRate_binary64 [of sevenOfTwentyFive]
  from C7_getPassRate_binary64 [of "newCollector ''chromium'' ''dev'' 0"] new
  have a: "getPassRate (newCollector ''chromium'' ''dev'' 0) = 0" by blast
  from c7 t have "getPassRate sevenOfTwentyFive
      = toDouble (toDouble (of_nat (passed (metrics sevenOfTwentyFive))
          / of_nat (total (metrics sevenOfTwentyFive))) * 100)"
    by blast
  then have "getPassRate sevenOfTwentyFive = toDouble (toDouble (7 / 25) * 100)"
    by (simp add: sevenOfTwentyFive_counters)
  then have b: "getPassRate sevenOfTwentyFive = 28 + 1 / 2 ^ 48"
    by (simp only: toDouble_seven_of_twenty_five) simp
  from c7 r have "\<bar>getPassRate sevenOfTwentyFive
        - of_nat (passed (metrics sevenOfTwentyFive))
            / of_nat (total (metrics sevenOfTwentyFive)) * 100\<bar>
      \<le> of_nat (passed (metrics sevenOfTwentyFive))
            / of_nat (total (metrics sevenOfTwentyFive)) * 100 * (1 / 2 ^ 52 + 1 / 2 ^ 106)"
    by blast
  then have c: "\<bar>getPassRate sevenOfTwentyFive - 28\<bar> \<le> 28 * (1 / 2 ^ 52 + 1 / 2 ^ 106)"
    by (simp add: sevenOfTwentyFive_counters)
  from a b c show ?thesis by blast
qed

section \<open>Properties of the report header\<close>

lemma tenths_at_least:
  fixes x :: rat and k :: int
  shows "(of_int k \<le> of_int \<lfloor>x * 10 + 1 / 2\<rfloor> / (10::rat)) = (of_int (20 * k - 1) \<le> 20 * x)"
proof -
  have "(of_int k \<le> of_int \<lfloor>x * 10 + 1 / 2\<rfloor> / (10::rat))
      = (of_int (10 * k) \<le> (of_int \<lfloor>x * 10 + 1 / 2\<rfloor> :: rat))"
    by (simp add: field_simps)
  also have "\<dots> = (10 * k \<le> \<lfloor>x * 10 + 1 / 2\<rfloor>)"
    by (simp only: of_int_le_iff)
  also have "\<dots> = (of_int (10 * k) \<le> x * 10 + 1 / 2)"
    by (simp only: le_floor_iff)
  also have "\<dots> = (of_int (20 * k - 1) \<le> 20 * x)"
    by (simp add: field_simps)
  finally show ?thesis .
qed

lemma statusClass_thresholds:
  assumes "total m \<noteq> 0"
  shows "statusClass m =
     (if (7995 / 100 :: rat) \<le> of_nat (passed m) / of_nat (total m) * 100 then ''success''
      else if (4995 / 100 :: rat) \<le> of_nat (passed m) / of_nat (total m) * 100 then ''warning''
      else ''error'')"
proof -
  let ?x = "of_nat (passed m) / of_nat (total m) * 100 :: rat"
  have a: "((80::rat) \<le> of_int \<lfloor>?x * 10 + 1 / 2\<rfloor> / 10) = ((7995 / 100 :: rat) \<le> ?x)"
    using tenths_at_least [of 80 ?x] by simp
  have b: "((50::rat) \<le> of_int \<lfloor>?x * 10 + 1 / 2\<rfloor> / 10) = ((4995 / 100 :: rat) \<le> ?x)"
    using tenths_at_least [of 50 ?x] by simp
  show ?thesis
    using assms
    by (simp only: statusClass_def divCounts_def Let_def timesNum.simps toFixed1.simps
        parseFloat.simps numAtLeast.simps a b if_False)
qed

text \<open>
  C9, as stated, fails. With 323 passed tests of 404 the pass rate is just above 79.95,
  below 80: decided by the pass rate itself the class is \<open>warning\<close>, and \<open>buildHeader\<close>,
  which compares the rate as displayed (rounded to \<open>80.0\<close>), writes \<open>success\<close>.
\<close>

theorem C9_rounding_counterexample:
  "statusClass
     \<lparr>total = 404, passed = 323, failed = 81, skipped = 0, flaky = 0,
      m_startTime = 0, m_endTime = None, m_duration = 0,
      averageTestDuration = 0, slowestTest = None, fastestTest = None,
      failureRate = 0, topFailures = [], browser = ''chromium'', environment = ''dev''\<rparr>
     = ''success''
   \<and> statusClass_spec
     \<lparr>total = 404, passed = 323, failed = 81, skipped = 0, flaky = 0,
      m_startTime = 0, m_endTime = None, m_duration = 0,
      averageTestDuration = 0, slowestTest = None, fastestTest = None,
      failureRate = 0, topFailures = [], browser = ''chromium'', environment = ''dev''\<rparr>
     = ''warning''
   \<and> (of_nat 323 / of_nat 404 * 100 :: rat) < 80"
  by (simp add: statusClass_def statusClass_spec_def divCounts_def)

text \<open>
  C9, amended. The class is decided by the pass rate rounded to one decimal place, halves
  up, which is the number the header displays: \<open>success\<close> exactly when the rounded rate is
  at least 80, that is when \<open>passed / total * 100\<close> is at least 79.95; \<open>warning\<close> when the
  rounded rate is at least 50 and below 80, that is from 49.95 up to 79.95; \<open>error\<close>
  otherwise. With \<open>total = 0\<close> the rate is not a number and the class is \<open>error\<close> when
  \<open>passed\<close> is 0 as well; a positive \<open>passed\<close> over \<open>total = 0\<close> is \<open>Infinity\<close> and gives
  \<open>success\<close>.
\<close>

theorem C9_statusClass_rounded:
  "statusClass m =
     (if total m = 0 then (if passed m = 0 then ''error'' else ''success'')
      else if (7995 / 100 :: rat) \<le> of_nat (passed m) / of_nat (total m) * 100 then ''success''
      else if (4995 / 100 :: rat) \<le> of_nat (passed m) / of_nat (total m) * 100 then ''warning''
      else ''error'')"
proof (cases "total m = 0")
  case True
  then show ?thesis by (simp add: statusClass_def divCounts_def)
next
  case False
  then show ?thesis using statusClass_thresholds [of m] by simp
qed

end
